theory Spec2Isabelle
  imports Main "HOL-Library.Word"
begin

unbundle bit_operations_syntax

section \<open>Machine model\<close>

text \<open>
  The poison layer of umm_malloc (src/umm_poison.c) works on raw memory: it writes guard
  bytes and a length record into the body of a heap block and later reads them back through
  pointer arithmetic. The model therefore uses an explicit byte store indexed by addresses.
  \<^verbatim>\<open>size_t\<close> and pointers are 32 bits wide (the Cortex-M targets of \<^verbatim>\<open>app_error.h\<close>),
  \<^verbatim>\<open>unsigned short\<close> is 16 bits wide, multi-byte values are stored little-endian, and the
  null pointer is address 0.
\<close>

type_synonym size_t = "32 word"
type_synonym ptr = "32 word"
type_synonym byte = "8 word"
type_synonym ushort = "16 word"
type_synonym memory = "ptr \<Rightarrow> byte"

definition NULL :: ptr where
  "NULL = 0"

text \<open>
  Build-time configuration. None of these macros and types is declared in umm_poison.c;
  they are parameters of the model:
  \<^item> \<open>UMM_POISON_SIZE_BEFORE\<close>, \<open>UMM_POISON_SIZE_AFTER\<close>: the guard sizes;
  \<^item> \<open>sizeof_len\<close>: \<^verbatim>\<open>sizeof(UMM_POISONED_BLOCK_LEN_TYPE)\<close>, the length record being read as an
    unsigned integer of that many bytes;
  \<^item> \<open>sizeof_umm_block\<close>: \<^verbatim>\<open>sizeof(umm_block)\<close>;
  \<^item> \<open>offsetof_body\<close>: the offset of \<^verbatim>\<open>body.data\<close> inside a \<^verbatim>\<open>umm_block\<close>
    (the field \<^verbatim>\<open>header.used.next\<close> is the unsigned short at offset 0).
\<close>

record umm_cfg =
  UMM_POISON_SIZE_BEFORE :: size_t
  UMM_POISON_SIZE_AFTER :: size_t
  sizeof_len :: size_t
  sizeof_umm_block :: size_t
  offsetof_body :: size_t

text \<open>What the debug log and the fatal assertion macro receive, in the order of the calls.\<close>

datatype event =
    No_poison string ptr
  | Dump_byte byte
  | Newline
  | Free_block_checked ptr
  | App_error_check_failed

text \<open>
  The process state the code touches: the global \<^verbatim>\<open>umm_heap\<close> pointer, the memory, and the
  trace of \<^verbatim>\<open>DBGLOG_ERROR\<close> and \<^verbatim>\<open>APP_ERROR_CHECK_BOOL(false)\<close> calls.
\<close>

record umm_state =
  umm_heap :: ptr
  mem :: memory
  dbglog :: "event list"

definition POISON_BYTE :: byte where
  "POISON_BYTE = 0xa5"

text \<open>
  Modelled from the spec: \<^verbatim>\<open>UMM_FREELIST_MASK\<close> and \<^verbatim>\<open>UMM_BLOCKNO_MASK\<close> are defined in
  umm_malloc.c, which is not part of the sources. The spec packs the free/used status into
  the high bit of the link field and masks index values to exclude it.
\<close>

definition UMM_FREELIST_MASK :: ushort where
  "UMM_FREELIST_MASK = 0x8000"

definition UMM_BLOCKNO_MASK :: ushort where
  "UMM_BLOCKNO_MASK = 0x7FFF"

subsection \<open>Memory access\<close>

text \<open>\<^verbatim>\<open>memset(ptr, c, n)\<close>.\<close>

fun memset :: "memory \<Rightarrow> ptr \<Rightarrow> byte \<Rightarrow> nat \<Rightarrow> memory" where
  "memset m p c 0 = m"
| "memset m p c (Suc n) = (memset m p c n)(p + of_nat n := c)"

text \<open>Little-endian store and load of an unsigned integer of \<open>n\<close> bytes.\<close>

fun store_le :: "memory \<Rightarrow> ptr \<Rightarrow> nat \<Rightarrow> size_t \<Rightarrow> memory" where
  "store_le m p 0 v = m"
| "store_le m p (Suc k) v = (store_le m p k v)(p + of_nat k := ucast (drop_bit (8 * k) v))"

fun load_le :: "memory \<Rightarrow> ptr \<Rightarrow> nat \<Rightarrow> size_t" where
  "load_le m p 0 = 0"
| "load_le m p (Suc k) = load_le m p k OR push_bit (8 * k) (ucast (m (p + of_nat k)))"

text \<open>\<^verbatim>\<open>*(UMM_POISONED_BLOCK_LEN_TYPE *)p\<close>, written and read.\<close>

definition store_len :: "umm_cfg \<Rightarrow> memory \<Rightarrow> ptr \<Rightarrow> size_t \<Rightarrow> memory" where
  "store_len cfg m p v = store_le m p (unat (sizeof_len cfg)) v"

definition load_len :: "umm_cfg \<Rightarrow> memory \<Rightarrow> ptr \<Rightarrow> size_t" where
  "load_len cfg m p = load_le m p (unat (sizeof_len cfg))"

text \<open>
  Modelled from the spec: the macros \<^verbatim>\<open>UMM_BLOCK\<close> and \<^verbatim>\<open>UMM_NBLOCK\<close> and the type
  \<^verbatim>\<open>umm_block\<close> are declared in umm_malloc.c, which is not part of the sources. The heap is
  an array of blocks addressed by index, so \<^verbatim>\<open>&UMM_BLOCK(b)\<close> is \<^verbatim>\<open>&umm_heap[b]\<close>, and
  \<^verbatim>\<open>UMM_NBLOCK(b)\<close> is the link field \<^verbatim>\<open>header.used.next\<close> of that block, the unsigned
  short its first two bytes hold.
\<close>

definition UMM_BLOCK :: "umm_cfg \<Rightarrow> umm_state \<Rightarrow> ushort \<Rightarrow> ptr" where
  "UMM_BLOCK cfg st b = umm_heap st + ucast b * sizeof_umm_block cfg"

definition header_used_next :: "umm_state \<Rightarrow> ptr \<Rightarrow> ushort" where
  "header_used_next st pblock = ucast (load_le (mem st) pblock 2)"

definition UMM_NBLOCK :: "umm_cfg \<Rightarrow> umm_state \<Rightarrow> ushort \<Rightarrow> ushort" where
  "UMM_NBLOCK cfg st b = header_used_next st (UMM_BLOCK cfg st b)"

definition DBGLOG_ERROR :: "umm_state \<Rightarrow> event \<Rightarrow> umm_state" where
  "DBGLOG_ERROR st e = st\<lparr>dbglog := dbglog st @ [e]\<rparr>"

text \<open>
  \<^verbatim>\<open>APP_ERROR_CHECK_BOOL(false)\<close> comes from app_error.h. Its call is recorded in the trace;
  the model then goes on as the C code after the macro does, so that the value returned
  when the error handler comes back is part of the model.
\<close>

definition APP_ERROR_CHECK_BOOL_false :: "umm_state \<Rightarrow> umm_state" where
  "APP_ERROR_CHECK_BOOL_false st = st\<lparr>dbglog := dbglog st @ [App_error_check_failed]\<rparr>"

section \<open>The poison codec\<close>

definition poison_size :: "umm_cfg \<Rightarrow> size_t \<Rightarrow> size_t" where
  "poison_size cfg s =
     (if s \<noteq> 0 then UMM_POISON_SIZE_BEFORE cfg + sizeof_len cfg + UMM_POISON_SIZE_AFTER cfg
      else 0)"

fun dump_mem :: "umm_state \<Rightarrow> ptr \<Rightarrow> nat \<Rightarrow> umm_state" where
  "dump_mem st p 0 = st"
| "dump_mem st p (Suc len) = dump_mem (DBGLOG_ERROR st (Dump_byte (mem st p))) (p + 1) len"

definition put_poison :: "memory \<Rightarrow> ptr \<Rightarrow> size_t \<Rightarrow> memory" where
  "put_poison m p psize = memset m p POISON_BYTE (unat psize)"

text \<open>The scanning loop of \<open>check_poison\<close>: 0 at the first byte that is not the poison byte.\<close>

function check_poison_loop :: "memory \<Rightarrow> ptr \<Rightarrow> nat \<Rightarrow> nat \<Rightarrow> int" where
  "check_poison_loop m p psize i =
     (if i < psize then
        (if m (p + of_nat i) \<noteq> POISON_BYTE then 0
         else check_poison_loop m p psize (Suc i))
      else 1)"
  by pat_completeness auto
termination
  by (relation "measure (\<lambda>(m, p, n, i). n - i)") auto

definition check_poison :: "umm_state \<Rightarrow> ptr \<Rightarrow> size_t \<Rightarrow> string \<Rightarrow> int \<times> umm_state" where
  "check_poison st p psize where' =
     (let ok = check_poison_loop (mem st) p (unat psize) 0 in
      if ok = 0 then
        (ok, APP_ERROR_CHECK_BOOL_false
               (DBGLOG_ERROR
                  (dump_mem (DBGLOG_ERROR st (No_poison where' p)) p (unat psize))
                  Newline))
      else (ok, st))"

definition check_poison_block :: "umm_cfg \<Rightarrow> umm_state \<Rightarrow> ptr \<Rightarrow> int \<times> umm_state" where
  "check_poison_block cfg st pblock =
     (if header_used_next st pblock AND UMM_FREELIST_MASK \<noteq> 0 then
        (1, DBGLOG_ERROR st (Free_block_checked pblock))
      else
        (let pc = pblock + offsetof_body cfg;
             (ok1, st1) = check_poison st (pc + sizeof_len cfg)
                            (UMM_POISON_SIZE_BEFORE cfg) ''before''
         in if ok1 = 0 then (0, st1)
            else
              (let (ok2, st2) = check_poison st1
                                  (pc + load_len cfg (mem st1) pc - UMM_POISON_SIZE_AFTER cfg)
                                  (UMM_POISON_SIZE_AFTER cfg) ''after''
               in if ok2 = 0 then (0, st2) else (1, st2))))"

definition get_poisoned :: "umm_cfg \<Rightarrow> umm_state \<Rightarrow> ptr \<Rightarrow> size_t \<Rightarrow> ptr \<times> umm_state" where
  "get_poisoned cfg st p size_w_poison =
     (if size_w_poison \<noteq> 0 \<and> p \<noteq> NULL then
        (let m1 = put_poison (mem st) (p + sizeof_len cfg) (UMM_POISON_SIZE_BEFORE cfg);
             m2 = put_poison m1 (p + size_w_poison - UMM_POISON_SIZE_AFTER cfg)
                    (UMM_POISON_SIZE_AFTER cfg);
             m3 = store_len cfg m2 p size_w_poison
         in (p + sizeof_len cfg + UMM_POISON_SIZE_BEFORE cfg, st\<lparr>mem := m3\<rparr>))
      else (p, st))"

definition get_unpoisoned :: "umm_cfg \<Rightarrow> umm_state \<Rightarrow> ptr \<Rightarrow> ptr \<times> umm_state" where
  "get_unpoisoned cfg st p =
     (if p \<noteq> NULL then
        (let p' = p - (sizeof_len cfg + UMM_POISON_SIZE_BEFORE cfg);
             c = (ucast ((p' - umm_heap st) div sizeof_umm_block cfg) :: ushort)
         in (p', snd (check_poison_block cfg st (UMM_BLOCK cfg st c))))
      else (p, st))"

section \<open>The allocation entry points\<close>

text \<open>
  \<open>umm_malloc\<close>, \<open>umm_realloc\<close>, \<open>umm_free\<close> and \<open>umm_init\<close> belong to the underlying
  allocator, which is not part of umm_poison.c. Each entry point takes the allocator
  function it calls as a parameter: a function from the state (and the C arguments) to the
  returned pointer and the new state.
\<close>

type_synonym malloc_fn = "umm_state \<Rightarrow> size_t \<Rightarrow> ptr \<times> umm_state"
type_synonym realloc_fn = "umm_state \<Rightarrow> ptr \<Rightarrow> size_t \<Rightarrow> ptr \<times> umm_state"
type_synonym free_fn = "umm_state \<Rightarrow> ptr \<Rightarrow> umm_state"
type_synonym init_fn = "umm_state \<Rightarrow> umm_state"

definition umm_poison_malloc :: "umm_cfg \<Rightarrow> malloc_fn \<Rightarrow> umm_state \<Rightarrow> size_t \<Rightarrow> ptr \<times> umm_state" where
  "umm_poison_malloc cfg umm_malloc st size' =
     (let size1 = size' + poison_size cfg size';
          (ret, st1) = umm_malloc st size1
      in get_poisoned cfg st1 ret size1)"

definition umm_poison_calloc ::
  "umm_cfg \<Rightarrow> malloc_fn \<Rightarrow> umm_state \<Rightarrow> size_t \<Rightarrow> size_t \<Rightarrow> ptr \<times> umm_state" where
  "umm_poison_calloc cfg umm_malloc st num item_size =
     (let size0 = item_size * num;
          size1 = size0 + poison_size cfg size0;
          (ret, st1) = umm_malloc st size1;
          st2 = (if NULL \<noteq> ret then st1\<lparr>mem := memset (mem st1) ret 0 (unat size1)\<rparr> else st1)
      in get_poisoned cfg st2 ret size1)"

definition umm_poison_realloc ::
  "umm_cfg \<Rightarrow> realloc_fn \<Rightarrow> umm_state \<Rightarrow> ptr \<Rightarrow> size_t \<Rightarrow> ptr \<times> umm_state" where
  "umm_poison_realloc cfg umm_realloc st p size' =
     (let (p1, st1) = get_unpoisoned cfg st p;
          size1 = size' + poison_size cfg size';
          (ret, st2) = umm_realloc st1 p1 size1
      in get_poisoned cfg st2 ret size1)"

definition umm_poison_free :: "umm_cfg \<Rightarrow> free_fn \<Rightarrow> umm_state \<Rightarrow> ptr \<Rightarrow> umm_state" where
  "umm_poison_free cfg umm_free st p =
     (let (p1, st1) = get_unpoisoned cfg st p in umm_free st1 p1)"

section \<open>The heap scan\<close>

text \<open>
  The \<^verbatim>\<open>while\<close> loop of \<open>umm_poison_check\<close>. Nothing in the code bounds the walk: on a
  cyclic chain it does not return, which is the value \<open>None\<close>.
\<close>

partial_function (option) umm_poison_check_loop ::
  "umm_cfg \<Rightarrow> umm_state \<Rightarrow> ushort \<Rightarrow> int \<Rightarrow> (int \<times> umm_state) option" where
  "umm_poison_check_loop cfg st cur ok =
     (if UMM_NBLOCK cfg st cur AND UMM_BLOCKNO_MASK \<noteq> 0 then
        (if UMM_NBLOCK cfg st cur AND UMM_FREELIST_MASK = 0 then
           (case check_poison_block cfg st (UMM_BLOCK cfg st cur) of
              (ok', st') \<Rightarrow>
                if ok' = 0 then Some (ok', st')
                else umm_poison_check_loop cfg st'
                       (UMM_NBLOCK cfg st' cur AND UMM_BLOCKNO_MASK) ok')
         else umm_poison_check_loop cfg st (UMM_NBLOCK cfg st cur AND UMM_BLOCKNO_MASK) ok)
      else Some (ok, st))"

declare umm_poison_check_loop.simps [code]

definition umm_poison_check :: "umm_cfg \<Rightarrow> init_fn \<Rightarrow> umm_state \<Rightarrow> (int \<times> umm_state) option" where
  "umm_poison_check cfg umm_init st =
     (let st1 = (if umm_heap st = NULL then umm_init st else st);
          cur = UMM_NBLOCK cfg st1 0 AND UMM_BLOCKNO_MASK
      in umm_poison_check_loop cfg st1 cur 1)"

section \<open>Notions used to state the properties\<close>

text \<open>
  The blocks the scan goes through, for at most \<open>n\<close> steps of its loop:
  \<open>chain_prefix\<close> lists the blocks the loop body runs on (those whose masked next index
  is not zero), \<open>chain_nodes\<close> lists every block whose link field the loop reads (the
  terminating block included), and \<open>chain_ends\<close> says that a zero next index is reached.
\<close>

fun chain_prefix :: "nat \<Rightarrow> umm_cfg \<Rightarrow> umm_state \<Rightarrow> ushort \<Rightarrow> ushort list" where
  "chain_prefix 0 cfg st cur = []"
| "chain_prefix (Suc n) cfg st cur =
     (if UMM_NBLOCK cfg st cur AND UMM_BLOCKNO_MASK = 0 then []
      else cur # chain_prefix n cfg st (UMM_NBLOCK cfg st cur AND UMM_BLOCKNO_MASK))"

fun chain_nodes :: "nat \<Rightarrow> umm_cfg \<Rightarrow> umm_state \<Rightarrow> ushort \<Rightarrow> ushort list" where
  "chain_nodes 0 cfg st cur = []"
| "chain_nodes (Suc n) cfg st cur =
     cur # (if UMM_NBLOCK cfg st cur AND UMM_BLOCKNO_MASK = 0 then []
            else chain_nodes n cfg st (UMM_NBLOCK cfg st cur AND UMM_BLOCKNO_MASK))"

fun chain_ends :: "nat \<Rightarrow> umm_cfg \<Rightarrow> umm_state \<Rightarrow> ushort \<Rightarrow> bool" where
  "chain_ends 0 cfg st cur = False"
| "chain_ends (Suc n) cfg st cur =
     (UMM_NBLOCK cfg st cur AND UMM_BLOCKNO_MASK = 0 \<or>
      chain_ends n cfg st (UMM_NBLOCK cfg st cur AND UMM_BLOCKNO_MASK))"

definition block_used :: "umm_cfg \<Rightarrow> umm_state \<Rightarrow> ushort \<Rightarrow> bool" where
  "block_used cfg st b \<longleftrightarrow> UMM_NBLOCK cfg st b AND UMM_FREELIST_MASK = 0"

text \<open>
  The scan as the specification words it: poison verification is invoked on every block
  of the list whose free bit is unset, in order, and the pass stops with failure at the
  first violation; with no violation the result is success.
\<close>

fun verify_blocks :: "umm_cfg \<Rightarrow> umm_state \<Rightarrow> ushort list \<Rightarrow> int \<times> umm_state" where
  "verify_blocks cfg st [] = (1, st)"
| "verify_blocks cfg st (b # bs) =
     (if block_used cfg st b then
        (case check_poison_block cfg st (UMM_BLOCK cfg st b) of
           (ok, st') \<Rightarrow> if ok = 0 then (0, st') else verify_blocks cfg st' bs)
      else verify_blocks cfg st bs)"

text \<open>The addresses \<open>p, p + 1, \<dots>, p + n - 1\<close>.\<close>

definition region :: "ptr \<Rightarrow> nat \<Rightarrow> ptr list" where
  "region p n = map (\<lambda>i. p + of_nat i) [0..<n]"

text \<open>
  The layout of a poisoned allocation in the block at \<open>pblock\<close>: the length record at the
  start of the body, the before-guard right after it, and the after-guard where the stored
  length puts it.
\<close>

definition len_bytes :: "umm_cfg \<Rightarrow> ptr \<Rightarrow> ptr list" where
  "len_bytes cfg pblock = region (pblock + offsetof_body cfg) (unat (sizeof_len cfg))"

definition before_guard :: "umm_cfg \<Rightarrow> ptr \<Rightarrow> ptr" where
  "before_guard cfg pblock = pblock + offsetof_body cfg + sizeof_len cfg"

definition after_guard :: "umm_cfg \<Rightarrow> umm_state \<Rightarrow> ptr \<Rightarrow> ptr" where
  "after_guard cfg st pblock =
     pblock + offsetof_body cfg + load_len cfg (mem st) (pblock + offsetof_body cfg)
       - UMM_POISON_SIZE_AFTER cfg"

definition before_bytes :: "umm_cfg \<Rightarrow> ptr \<Rightarrow> ptr list" where
  "before_bytes cfg pblock = region (before_guard cfg pblock) (unat (UMM_POISON_SIZE_BEFORE cfg))"

definition after_bytes :: "umm_cfg \<Rightarrow> umm_state \<Rightarrow> ptr \<Rightarrow> ptr list" where
  "after_bytes cfg st pblock =
     region (after_guard cfg st pblock) (unat (UMM_POISON_SIZE_AFTER cfg))"

definition poison_bytes :: "umm_cfg \<Rightarrow> umm_state \<Rightarrow> ptr \<Rightarrow> ptr list" where
  "poison_bytes cfg st pblock =
     len_bytes cfg pblock @ before_bytes cfg pblock @ after_bytes cfg st pblock"

definition link_bytes :: "umm_cfg \<Rightarrow> umm_state \<Rightarrow> ushort \<Rightarrow> ptr list" where
  "link_bytes cfg st b = region (UMM_BLOCK cfg st b) 2"

text \<open>Every byte of both guards of the block holds the poison byte.\<close>

definition block_poison_ok :: "umm_cfg \<Rightarrow> umm_state \<Rightarrow> ptr \<Rightarrow> bool" where
  "block_poison_ok cfg st pblock \<longleftrightarrow>
     list_all (\<lambda>a. mem st a = POISON_BYTE) (before_bytes cfg pblock) \<and>
     list_all (\<lambda>a. mem st a = POISON_BYTE) (after_bytes cfg st pblock)"

text \<open>What a failing \<open>check_poison\<close> adds to the trace.\<close>

definition poison_report :: "umm_state \<Rightarrow> string \<Rightarrow> ptr \<Rightarrow> size_t \<Rightarrow> event list" where
  "poison_report st where' p psize =
     No_poison where' p # map (\<lambda>a. Dump_byte (mem st a)) (region p (unat psize))
       @ [Newline, App_error_check_failed]"

datatype guard_side = Before_guard | After_guard

fun side_name :: "guard_side \<Rightarrow> string" where
  "side_name Before_guard = ''before''"
| "side_name After_guard = ''after''"

fun guard_start :: "guard_side \<Rightarrow> umm_cfg \<Rightarrow> umm_state \<Rightarrow> ptr \<Rightarrow> ptr" where
  "guard_start Before_guard cfg st pblock = before_guard cfg pblock"
| "guard_start After_guard cfg st pblock = after_guard cfg st pblock"

fun guard_size :: "guard_side \<Rightarrow> umm_cfg \<Rightarrow> size_t" where
  "guard_size Before_guard cfg = UMM_POISON_SIZE_BEFORE cfg"
| "guard_size After_guard cfg = UMM_POISON_SIZE_AFTER cfg"

section \<open>A concrete heap\<close>

text \<open>
  The configuration of the specification's end-to-end example (guards of 4 bytes, a
  2-byte length record) with 8-byte blocks whose body starts at offset 4, and a heap of six
  blocks at address 0x1000: block 0 links to block 1; block 1 is used and links to block 4,
  so its body has 20 bytes from 0x100C; block 4 is free and links to block 5, which ends
  the chain.
\<close>

definition cfg0 :: umm_cfg where
  "cfg0 = \<lparr>UMM_POISON_SIZE_BEFORE = 4, UMM_POISON_SIZE_AFTER = 4, sizeof_len = 2,
           sizeof_umm_block = 8, offsetof_body = 4\<rparr>"

definition ex_mem :: memory where
  "ex_mem = (\<lambda>a. 0)(0x1000 := 1, 0x1008 := 4, 0x1020 := 5, 0x1021 := 0x80)"

definition ex_state :: umm_state where
  "ex_state = \<lparr>umm_heap = 0x1000, mem = ex_mem, dbglog = []\<rparr>"

text \<open>Stand-ins for the underlying allocator on that heap.\<close>

definition ex_malloc :: malloc_fn where
  "ex_malloc st n = (0x100C, st)"

definition ex_malloc_null :: malloc_fn where
  "ex_malloc_null st n = (NULL, st)"

definition ex_realloc_null :: realloc_fn where
  "ex_realloc_null st p n = (NULL, st)"

definition ex_free :: free_fn where
  "ex_free st p = st"

definition ex_init :: init_fn where
  "ex_init st = ex_state"

text \<open>The state before the heap is initialised; \<open>ex_init\<close> then sets up the heap above.\<close>

definition ex_uninit :: umm_state where
  "ex_uninit = \<lparr>umm_heap = NULL, mem = (\<lambda>a. 0), dbglog = []\<rparr>"

text \<open>The heap after \<^verbatim>\<open>umm_poison_malloc(10)\<close> has poisoned block 1.\<close>

definition ex_poisoned :: umm_state where
  "ex_poisoned = snd (umm_poison_malloc cfg0 ex_malloc ex_state 10)"

text \<open>
  A larger heap: block 1 is used and links to block 0x2002, which ends the chain, so the
  body of block 1 has 65540 bytes.
\<close>

definition ex_big_state :: umm_state where
  "ex_big_state =
     \<lparr>umm_heap = 0x1000, mem = (\<lambda>a. 0)(0x1000 := 1, 0x1008 := 0x02, 0x1009 := 0x20),
      dbglog = []\<rparr>"

definition ex_big_malloc :: malloc_fn where
  "ex_big_malloc st n = (0x100C, ex_big_state)"

section \<open>Basic facts\<close>

declare check_poison_loop.simps [simp del]

subsection \<open>Unfolding on numerals\<close>

lemma memset_numeral:
  "memset m p c (numeral k) = (memset m p c (pred_numeral k))(p + of_nat (pred_numeral k) := c)"
  by (simp add: numeral_eq_Suc)

lemma store_le_numeral:
  "store_le m p (numeral k) v =
     (store_le m p (pred_numeral k) v)
       (p + of_nat (pred_numeral k) := ucast (drop_bit (8 * pred_numeral k) v))"
  by (simp add: numeral_eq_Suc)

lemma load_le_numeral:
  "load_le m p (numeral k) =
     load_le m p (pred_numeral k) OR
       push_bit (8 * pred_numeral k) (ucast (m (p + of_nat (pred_numeral k))))"
  by (simp add: numeral_eq_Suc)

lemma dump_mem_numeral:
  "dump_mem st p (numeral k) =
     dump_mem (DBGLOG_ERROR st (Dump_byte (mem st p))) (p + 1) (pred_numeral k)"
  by (simp add: numeral_eq_Suc)

lemma region_0: "region p 0 = []"
  by (simp add: region_def)

lemma region_Suc: "region p (Suc n) = region p n @ [p + of_nat n]"
  by (simp add: region_def)

lemma region_numeral:
  "region p (numeral k) = region p (pred_numeral k) @ [p + of_nat (pred_numeral k)]"
  by (simp add: numeral_eq_Suc region_Suc)

lemma chain_prefix_numeral:
  "chain_prefix (numeral k) cfg st cur =
     (if UMM_NBLOCK cfg st cur AND UMM_BLOCKNO_MASK = 0 then []
      else cur # chain_prefix (pred_numeral k) cfg st (UMM_NBLOCK cfg st cur AND UMM_BLOCKNO_MASK))"
  by (simp add: numeral_eq_Suc)

lemma chain_nodes_numeral:
  "chain_nodes (numeral k) cfg st cur =
     cur # (if UMM_NBLOCK cfg st cur AND UMM_BLOCKNO_MASK = 0 then []
            else chain_nodes (pred_numeral k) cfg st (UMM_NBLOCK cfg st cur AND UMM_BLOCKNO_MASK))"
  by (simp add: numeral_eq_Suc)

lemma chain_ends_numeral:
  "chain_ends (numeral k) cfg st cur =
     (UMM_NBLOCK cfg st cur AND UMM_BLOCKNO_MASK = 0 \<or>
      chain_ends (pred_numeral k) cfg st (UMM_NBLOCK cfg st cur AND UMM_BLOCKNO_MASK))"
  by (simp add: numeral_eq_Suc)

subsection \<open>The scanning loop of \<open>check_poison\<close>\<close>

lemma check_poison_loop_all:
  "check_poison_loop m p n i =
     (if \<forall>j. i \<le> j \<and> j < n \<longrightarrow> m (p + of_nat j) = POISON_BYTE then 1 else 0)"
proof (induction m p n i rule: check_poison_loop.induct)
  case (1 m p psize i)
  show ?case
  proof (cases "i < psize")
    case False
    then show ?thesis by (simp add: check_poison_loop.simps)
  next
    case True
    show ?thesis
    proof (cases "m (p + of_nat i) = POISON_BYTE")
      case False
      with True show ?thesis
        by (subst check_poison_loop.simps) auto
    next
      case eq: True
      have "(\<forall>j. i \<le> j \<and> j < psize \<longrightarrow> m (p + of_nat j) = POISON_BYTE) \<longleftrightarrow>
            (\<forall>j. Suc i \<le> j \<and> j < psize \<longrightarrow> m (p + of_nat j) = POISON_BYTE)"
        using eq by (metis Suc_leI le_neq_implies_less Suc_leD)
      with True eq "1.IH" show ?thesis
        by (subst check_poison_loop.simps) simp
    qed
  qed
qed

lemma check_poison_loop_region:
  "check_poison_loop m p n 0 =
     (if list_all (\<lambda>a. m a = POISON_BYTE) (region p n) then 1 else 0)"
  by (simp add: check_poison_loop_all region_def list_all_iff)

subsection \<open>Evaluation on the concrete heap\<close>

lemmas ex_defs =
  cfg0_def ex_state_def ex_mem_def ex_malloc_def ex_free_def ex_big_state_def
  ex_big_malloc_def ex_init_def ex_malloc_null_def ex_realloc_null_def ex_uninit_def

lemma cfg0_simps:
  "UMM_POISON_SIZE_BEFORE cfg0 = 4" "UMM_POISON_SIZE_AFTER cfg0 = 4" "sizeof_len cfg0 = 2"
  "sizeof_umm_block cfg0 = 8" "offsetof_body cfg0 = 4"
  by (simp_all add: cfg0_def)

lemmas model_defs =
  umm_poison_malloc_def umm_poison_calloc_def umm_poison_realloc_def umm_poison_free_def
  get_poisoned_def get_unpoisoned_def check_poison_block_def check_poison_def put_poison_def
  store_len_def load_len_def poison_size_def header_used_next_def UMM_BLOCK_def
  UMM_NBLOCK_def UMM_FREELIST_MASK_def UMM_BLOCKNO_MASK_def NULL_def POISON_BYTE_def
  DBGLOG_ERROR_def APP_ERROR_CHECK_BOOL_false_def umm_poison_check_def
  region_0 region_Suc region_numeral memset_numeral store_le_numeral load_le_numeral
  dump_mem_numeral check_poison_loop_region

subsection \<open>Word arithmetic\<close>

lemma mult_size_t_mod: "(a::size_t) * b = of_nat ((unat a * unat b) mod 2 ^ 32)"
  by (simp add: word_unat_eq_iff unat_word_ariths unat_of_nat)

section \<open>Properties of the allocation entry points\<close>

text \<open>
  C3, as the code has it: when the free bit of the block's link field is set,
  \<open>check_poison_block\<close> logs the call, inspects no guard byte, raises no fatal assertion
  and leaves memory alone; the value it returns is 1, the value of a successful
  verification, not a failure.
\<close>

theorem check_poison_block_on_free_block:
  assumes "header_used_next st pblock AND UMM_FREELIST_MASK \<noteq> 0"
  shows "check_poison_block cfg st pblock =
           (1, st\<lparr>dbglog := dbglog st @ [Free_block_checked pblock]\<rparr>)"
  using assms by (simp add: check_poison_block_def DBGLOG_ERROR_def)

theorem check_poison_block_on_free_block_witness:
  "header_used_next ex_state 0x1020 AND UMM_FREELIST_MASK \<noteq> 0 \<and>
   check_poison_block cfg0 ex_state 0x1020 =
     (1, ex_state\<lparr>dbglog := dbglog ex_state @ [Free_block_checked 0x1020]\<rparr>)"
proof -
  have h: "header_used_next ex_state 0x1020 AND UMM_FREELIST_MASK \<noteq> 0"
    by (simp add: ex_defs model_defs)
  show ?thesis
    using h check_poison_block_on_free_block [OF h, of cfg0] by simp
qed

text \<open>
  C3 as stated fails: on the free block 4 of the concrete heap the call does not return a
  failure, it returns 1.
\<close>

theorem check_poison_block_free_returns_ok:
  "header_used_next ex_state 0x1020 AND UMM_FREELIST_MASK \<noteq> 0 \<and>
   fst (check_poison_block cfg0 ex_state 0x1020) \<noteq> 0"
  by (simp add: ex_defs model_defs)




text \<open>
  C6: when the underlying allocator returns null, \<open>umm_poison_malloc\<close>, \<open>umm_poison_calloc\<close>
  and \<open>umm_poison_realloc\<close> return the allocator's null pointer together with the
  allocator's state as it is: nothing is written or logged after the allocator returns.
\<close>

theorem null_result_propagates:
  "(fst (umm_malloc st (size' + poison_size cfg size')) = NULL \<longrightarrow>
      umm_poison_malloc cfg umm_malloc st size' =
        umm_malloc st (size' + poison_size cfg size'))
   \<and> (fst (umm_malloc st (item_size * num + poison_size cfg (item_size * num))) = NULL \<longrightarrow>
      umm_poison_calloc cfg umm_malloc st num item_size =
        umm_malloc st (item_size * num + poison_size cfg (item_size * num)))
   \<and> (fst (umm_realloc (snd (get_unpoisoned cfg st p)) (fst (get_unpoisoned cfg st p))
             (size' + poison_size cfg size')) = NULL \<longrightarrow>
      umm_poison_realloc cfg umm_realloc st p size' =
        umm_realloc (snd (get_unpoisoned cfg st p)) (fst (get_unpoisoned cfg st p))
          (size' + poison_size cfg size'))"
  by (auto simp: umm_poison_malloc_def umm_poison_calloc_def umm_poison_realloc_def
      get_poisoned_def Let_def split: prod.splits)

theorem null_result_propagates_witness:
  "umm_poison_malloc cfg0 ex_malloc_null ex_state 10 = (NULL, ex_state) \<and>
   umm_poison_calloc cfg0 ex_malloc_null ex_state 5 2 = (NULL, ex_state) \<and>
   umm_poison_realloc cfg0 ex_realloc_null ex_state NULL 10 = (NULL, ex_state)"
  using null_result_propagates
    [of ex_malloc_null ex_state 10 cfg0 2 5 ex_realloc_null NULL]
  by (simp add: ex_malloc_null_def ex_realloc_null_def get_unpoisoned_def)

text \<open>
  C8: \<open>umm_poison_calloc\<close> takes its user size as the product of \<open>item_size\<close> and \<open>num\<close>
  modulo \<open>2 ^ 32\<close>, the width of \<open>size_t\<close>, with no overflow check: the allocator is asked
  for that wrapped size plus its poison overhead, the block is poisoned with it, and when
  the product overflows the size used is smaller than the product by at least \<open>2 ^ 32\<close>.
\<close>

theorem umm_poison_calloc_size_wraps:
  "(let size0 = (of_nat ((unat item_size * unat num) mod 2 ^ 32) :: size_t);
        size1 = size0 + poison_size cfg size0
    in umm_poison_calloc cfg umm_malloc st num item_size =
         (case umm_malloc st size1 of
            (ret, st1) \<Rightarrow>
              get_poisoned cfg
                (if ret \<noteq> NULL then st1\<lparr>mem := memset (mem st1) ret 0 (unat size1)\<rparr> else st1)
                ret size1)
       \<and> (2 ^ 32 \<le> unat item_size * unat num \<longrightarrow>
            unat size0 + 2 ^ 32 \<le> unat item_size * unat num))"
proof -
  let ?n = "unat item_size * unat num"
  have eq: "(of_nat (?n mod 2 ^ 32) :: size_t) = item_size * num"
    by (rule mult_size_t_mod [symmetric])
  have u: "unat (item_size * num) = ?n mod 2 ^ 32"
    by (simp add: unat_word_ariths)
  have small: "?n mod 2 ^ 32 + 2 ^ 32 \<le> ?n" if a: "2 ^ 32 \<le> ?n"
  proof -
    have "?n mod 2 ^ 32 + 2 ^ 32 * (?n div 2 ^ 32) = ?n" by simp
    moreover have "1 \<le> ?n div 2 ^ 32" using a by (simp add: div_greater_zero_iff Suc_le_eq)
    ultimately show ?thesis
      by (metis add_le_cancel_left mult.right_neutral mult_le_mono2)
  qed
  have run: "umm_poison_calloc cfg umm_malloc st num item_size =
     (case umm_malloc st (item_size * num + poison_size cfg (item_size * num)) of
        (ret, st1) \<Rightarrow>
          get_poisoned cfg
            (if ret \<noteq> NULL
             then st1\<lparr>mem := memset (mem st1) ret 0
                    (unat (item_size * num + poison_size cfg (item_size * num)))\<rparr>
             else st1)
            ret (item_size * num + poison_size cfg (item_size * num)))"
    by (auto simp: umm_poison_calloc_def Let_def split: prod.splits)
  show ?thesis
    unfolding Let_def eq using small run by (simp add: u)
qed

theorem umm_poison_calloc_size_wraps_witness:
  "(2::nat) ^ 32 \<le> unat (0x10001 :: size_t) * unat (0x10000 :: size_t) \<and>
   umm_poison_calloc cfg0 ex_malloc ex_state 0x10000 0x10001 =
     get_poisoned cfg0
       (ex_state\<lparr>mem := memset (mem ex_state) 0x100C 0 (unat (0x1000A :: size_t))\<rparr>)
       0x100C 0x1000A"
proof -
  have s: "(of_nat ((unat (0x10001 :: size_t) * unat (0x10000 :: size_t)) mod 2 ^ 32) :: size_t)
             = 0x10000"
    by simp
  have t: "(0x10000 :: size_t) + poison_size cfg0 0x10000 = 0x1000A"
    by (simp add: poison_size_def cfg0_def)
  have h: "(2::nat) ^ 32 \<le> unat (0x10001 :: size_t) * unat (0x10000 :: size_t)"
    by simp
  from umm_poison_calloc_size_wraps [of "0x10001" "0x10000" cfg0 ex_malloc ex_state] h
  show ?thesis
    unfolding Let_def s t by (simp add: ex_malloc_def NULL_def)
qed

section \<open>Verification of one block\<close>

lemma region_Cons: "region p (Suc n) = p # region (p + 1) n"
  by (simp add: region_def map_upt_Suc add.assoc del: upt_Suc)

lemma set_region: "set (region p n) = {p + of_nat i |i. i < n}"
  by (auto simp: region_def)

lemma dump_mem_eq:
  "dump_mem st p n = st\<lparr>dbglog := dbglog st @ map (\<lambda>a. Dump_byte (mem st a)) (region p n)\<rparr>"
proof (induction n arbitrary: st p)
  case 0
  then show ?case by (simp add: region_0)
next
  case (Suc n)
  show ?case
    by (simp add: Suc.IH region_Cons DBGLOG_ERROR_def)
qed

lemma check_poison_eq:
  "check_poison st p n w =
     (if list_all (\<lambda>a. mem st a = POISON_BYTE) (region p (unat n)) then (1, st)
      else (0, st\<lparr>dbglog := dbglog st @ poison_report st w p n\<rparr>))"
  by (simp add: check_poison_def check_poison_loop_region dump_mem_eq DBGLOG_ERROR_def
      APP_ERROR_CHECK_BOOL_false_def poison_report_def Let_def)

lemma check_poison_block_used:
  assumes "header_used_next st pb AND UMM_FREELIST_MASK = 0"
  shows "check_poison_block cfg st pb =
     (if list_all (\<lambda>a. mem st a = POISON_BYTE) (before_bytes cfg pb) then
        (if list_all (\<lambda>a. mem st a = POISON_BYTE) (after_bytes cfg st pb) then (1, st)
         else (0, st\<lparr>dbglog := dbglog st @
                 poison_report st ''after'' (after_guard cfg st pb) (UMM_POISON_SIZE_AFTER cfg)\<rparr>))
      else (0, st\<lparr>dbglog := dbglog st @
                 poison_report st ''before'' (before_guard cfg pb) (UMM_POISON_SIZE_BEFORE cfg)\<rparr>))"
  using assms
  by (simp add: check_poison_block_def check_poison_eq before_bytes_def after_bytes_def
      before_guard_def after_guard_def Let_def)

lemma check_poison_block_ok:
  assumes "header_used_next st pb AND UMM_FREELIST_MASK = 0" "block_poison_ok cfg st pb"
  shows "check_poison_block cfg st pb = (1, st)"
  using assms by (simp add: check_poison_block_used block_poison_ok_def)

lemma check_poison_block_bad:
  assumes "header_used_next st pb AND UMM_FREELIST_MASK = 0" "\<not> block_poison_ok cfg st pb"
  shows "fst (check_poison_block cfg st pb) = 0"
  using assms by (auto simp add: check_poison_block_used block_poison_ok_def)

lemma check_poison_block_pass:
  assumes "header_used_next st pb AND UMM_FREELIST_MASK = 0"
    and "check_poison_block cfg st pb = (ok, st')" and "ok \<noteq> 0"
  shows "ok = 1 \<and> st' = st"
  using assms by (auto simp add: check_poison_block_used split: if_splits)

section \<open>The heap scan as a single pass\<close>

lemma loop_verify:
  "chain_ends n cfg st cur \<or> fst (verify_blocks cfg st (chain_prefix n cfg st cur)) = 0 \<Longrightarrow>
   umm_poison_check_loop cfg st cur 1 = Some (verify_blocks cfg st (chain_prefix n cfg st cur))"
proof (induction n arbitrary: cur)
  case 0
  then show ?case by simp
next
  case (Suc n)
  let ?nxt = "UMM_NBLOCK cfg st cur AND UMM_BLOCKNO_MASK"
  show ?case
  proof (cases "?nxt = 0")
    case True
    then show ?thesis
      by (subst umm_poison_check_loop.simps) simp
  next
    case nz: False
    show ?thesis
    proof (cases "block_used cfg st cur")
      case False
      with nz Suc.prems have "chain_ends n cfg st ?nxt \<or>
          fst (verify_blocks cfg st (chain_prefix n cfg st ?nxt)) = 0"
        by simp
      from Suc.IH [OF this] nz False show ?thesis
        by (subst umm_poison_check_loop.simps) (simp add: block_used_def)
    next
      case used: True
      then have hdr: "header_used_next st (UMM_BLOCK cfg st cur) AND UMM_FREELIST_MASK = 0"
        by (simp add: block_used_def UMM_NBLOCK_def)
      obtain ok st' where c: "check_poison_block cfg st (UMM_BLOCK cfg st cur) = (ok, st')"
        by (cases "check_poison_block cfg st (UMM_BLOCK cfg st cur)")
      show ?thesis
      proof (cases "ok = 0")
        case True
        with nz used c show ?thesis
          by (subst umm_poison_check_loop.simps) (simp add: block_used_def)
      next
        case False
        from check_poison_block_pass [OF hdr c False] have eq: "ok = 1" "st' = st" by simp_all
        with nz used c Suc.prems have "chain_ends n cfg st ?nxt \<or>
            fst (verify_blocks cfg st (chain_prefix n cfg st ?nxt)) = 0"
          by simp
        from Suc.IH [OF this] nz used c eq show ?thesis
          by (subst umm_poison_check_loop.simps) (simp add: block_used_def)
      qed
    qed
  qed
qed

lemma loop_returns:
  assumes "umm_poison_check_loop cfg st cur ok = Some r"
  shows "\<exists>n. chain_ends n cfg st cur \<or>
             fst (verify_blocks cfg st (chain_prefix n cfg st cur)) = 0"
proof (rule umm_poison_check_loop.raw_induct
    [where P = "\<lambda>cfg st cur ok r. \<exists>n. chain_ends n cfg st cur \<or>
             fst (verify_blocks cfg st (chain_prefix n cfg st cur)) = 0", OF _ assms])
  fix loop :: "umm_cfg \<Rightarrow> umm_state \<Rightarrow> ushort \<Rightarrow> int \<Rightarrow> (int \<times> umm_state) option"
  fix cfg st cur ok r
  assume IH: "\<And>cfg st cur ok r. loop cfg st cur ok = Some r \<Longrightarrow>
     \<exists>n. chain_ends n cfg st cur \<or> fst (verify_blocks cfg st (chain_prefix n cfg st cur)) = 0"
  assume body: "(if UMM_NBLOCK cfg st cur AND UMM_BLOCKNO_MASK \<noteq> 0 then
        (if UMM_NBLOCK cfg st cur AND UMM_FREELIST_MASK = 0 then
           (case check_poison_block cfg st (UMM_BLOCK cfg st cur) of
              (ok', st') \<Rightarrow>
                if ok' = 0 then Some (ok', st')
                else loop cfg st' (UMM_NBLOCK cfg st' cur AND UMM_BLOCKNO_MASK) ok')
         else loop cfg st (UMM_NBLOCK cfg st cur AND UMM_BLOCKNO_MASK) ok)
      else Some (ok, st)) = Some r"
  let ?nxt = "UMM_NBLOCK cfg st cur AND UMM_BLOCKNO_MASK"
  show "\<exists>n. chain_ends n cfg st cur \<or>
             fst (verify_blocks cfg st (chain_prefix n cfg st cur)) = 0"
  proof (cases "?nxt = 0")
    case True
    then have "chain_ends (Suc 0) cfg st cur" by simp
    then show ?thesis by blast
  next
    case nz: False
    show ?thesis
    proof (cases "block_used cfg st cur")
      case False
      with nz body have "loop cfg st ?nxt ok = Some r"
        by (simp add: block_used_def)
      from IH [OF this] obtain n where
        "chain_ends n cfg st ?nxt \<or> fst (verify_blocks cfg st (chain_prefix n cfg st ?nxt)) = 0"
        by blast
      with nz False have "chain_ends (Suc n) cfg st cur \<or>
          fst (verify_blocks cfg st (chain_prefix (Suc n) cfg st cur)) = 0"
        by simp
      then show ?thesis by blast
    next
      case used: True
      then have hdr: "header_used_next st (UMM_BLOCK cfg st cur) AND UMM_FREELIST_MASK = 0"
        by (simp add: block_used_def UMM_NBLOCK_def)
      obtain ok' st' where c: "check_poison_block cfg st (UMM_BLOCK cfg st cur) = (ok', st')"
        by (cases "check_poison_block cfg st (UMM_BLOCK cfg st cur)")
      show ?thesis
      proof (cases "ok' = 0")
        case True
        with nz used c have "fst (verify_blocks cfg st (chain_prefix (Suc 0) cfg st cur)) = 0"
          by simp
        then show ?thesis by blast
      next
        case False
        from check_poison_block_pass [OF hdr c False] have eq: "ok' = 1" "st' = st" by simp_all
        with nz used c body have "loop cfg st ?nxt 1 = Some r"
          by (simp add: block_used_def)
        from IH [OF this] obtain n where
          "chain_ends n cfg st ?nxt \<or> fst (verify_blocks cfg st (chain_prefix n cfg st ?nxt)) = 0"
          by blast
        with nz used c eq have "chain_ends (Suc n) cfg st cur \<or>
            fst (verify_blocks cfg st (chain_prefix (Suc n) cfg st cur)) = 0"
          by simp
        then show ?thesis by blast
      qed
    qed
  qed
qed

text \<open>
  C9: \<open>umm_poison_check\<close> first initialises the heap when \<open>umm_heap\<close> is null, then walks
  the chain once from the block that block 0 links to, following the next indices with the
  free bit masked out. It returns exactly when, after some number \<open>n\<close> of steps, the walk
  has reached a next index of zero or the verification of the blocks walked so far has
  found a violation; the result is then that of verifying, in order, every walked block
  whose free bit is unset, stopping with failure at the first violation and giving success
  otherwise.
\<close>

theorem umm_poison_check_single_pass:
  "umm_poison_check cfg umm_init st = Some r \<longleftrightarrow>
     (let st1 = (if umm_heap st = NULL then umm_init st else st);
          head = UMM_NBLOCK cfg st1 0 AND UMM_BLOCKNO_MASK
      in \<exists>n. (chain_ends n cfg st1 head \<or>
               fst (verify_blocks cfg st1 (chain_prefix n cfg st1 head)) = 0) \<and>
              r = verify_blocks cfg st1 (chain_prefix n cfg st1 head))"
proof -
  define st1 where "st1 = (if umm_heap st = NULL then umm_init st else st)"
  define head where "head = UMM_NBLOCK cfg st1 0 AND UMM_BLOCKNO_MASK"
  have run: "umm_poison_check cfg umm_init st = umm_poison_check_loop cfg st1 head 1"
    by (simp add: umm_poison_check_def st1_def head_def Let_def)
  have "umm_poison_check_loop cfg st1 head 1 = Some r \<longleftrightarrow>
     (\<exists>n. (chain_ends n cfg st1 head \<or>
               fst (verify_blocks cfg st1 (chain_prefix n cfg st1 head)) = 0) \<and>
              r = verify_blocks cfg st1 (chain_prefix n cfg st1 head))"
  proof
    assume a: "umm_poison_check_loop cfg st1 head 1 = Some r"
    from loop_returns [OF a] obtain n where
      n: "chain_ends n cfg st1 head \<or>
          fst (verify_blocks cfg st1 (chain_prefix n cfg st1 head)) = 0"
      by blast
    from loop_verify [OF n] a have "r = verify_blocks cfg st1 (chain_prefix n cfg st1 head)"
      by simp
    with n show "\<exists>n. (chain_ends n cfg st1 head \<or>
               fst (verify_blocks cfg st1 (chain_prefix n cfg st1 head)) = 0) \<and>
              r = verify_blocks cfg st1 (chain_prefix n cfg st1 head)"
      by blast
  next
    assume "\<exists>n. (chain_ends n cfg st1 head \<or>
               fst (verify_blocks cfg st1 (chain_prefix n cfg st1 head)) = 0) \<and>
              r = verify_blocks cfg st1 (chain_prefix n cfg st1 head)"
    then obtain n where
      n: "chain_ends n cfg st1 head \<or>
          fst (verify_blocks cfg st1 (chain_prefix n cfg st1 head)) = 0"
      and r: "r = verify_blocks cfg st1 (chain_prefix n cfg st1 head)"
      by blast
    from loop_verify [OF n] r show "umm_poison_check_loop cfg st1 head 1 = Some r"
      by simp
  qed
  then show ?thesis
    unfolding run by (simp add: st1_def head_def Let_def)
qed

lemmas chain_numerals = chain_prefix_numeral chain_nodes_numeral chain_ends_numeral

theorem umm_poison_check_single_pass_witness:
  "umm_poison_check cfg0 ex_init ex_poisoned = Some (1, ex_poisoned) \<and>
   umm_poison_check cfg0 ex_init ex_uninit =
     Some (0, ex_state\<lparr>dbglog := [No_poison ''before'' 0x100E, Dump_byte 0, Dump_byte 0,
                                    Dump_byte 0, Dump_byte 0, Newline, App_error_check_failed]\<rparr>)"
proof -
  let ?h = "UMM_NBLOCK cfg0 ex_poisoned 0 AND UMM_BLOCKNO_MASK"
  let ?r = "(0 :: int, ex_state\<lparr>dbglog := [No_poison ''before'' 0x100E, Dump_byte 0, Dump_byte 0,
                                    Dump_byte 0, Dump_byte 0, Newline, App_error_check_failed]\<rparr>)"
  have i: "umm_heap ex_poisoned \<noteq> NULL"
    by (simp add: ex_poisoned_def ex_defs model_defs Let_def)
  have e: "chain_ends 3 cfg0 ex_poisoned ?h"
    by (simp add: ex_poisoned_def ex_defs model_defs chain_numerals Let_def)
  have v: "verify_blocks cfg0 ex_poisoned (chain_prefix 3 cfg0 ex_poisoned ?h) = (1, ex_poisoned)"
    by (simp add: ex_poisoned_def ex_defs model_defs chain_numerals block_used_def Let_def)
  have "\<exists>n. (chain_ends n cfg0 ex_poisoned ?h \<or>
               fst (verify_blocks cfg0 ex_poisoned (chain_prefix n cfg0 ex_poisoned ?h)) = 0) \<and>
              (1, ex_poisoned) = verify_blocks cfg0 ex_poisoned (chain_prefix n cfg0 ex_poisoned ?h)"
    using e v by (intro exI [of _ 3]) simp
  then have pass: "umm_poison_check cfg0 ex_init ex_poisoned = Some (1, ex_poisoned)"
    using i umm_poison_check_single_pass [of cfg0 ex_init ex_poisoned "(1, ex_poisoned)"]
    by (simp add: Let_def)
  let ?g = "UMM_NBLOCK cfg0 ex_state 0 AND UMM_BLOCKNO_MASK"
  have u: "umm_heap ex_uninit = NULL" "ex_init ex_uninit = ex_state"
    by (simp_all add: ex_uninit_def ex_init_def)
  have w: "verify_blocks cfg0 ex_state (chain_prefix 1 cfg0 ex_state ?g) = ?r"
    by (simp add: ex_defs model_defs block_used_def Let_def)
  have "\<exists>n. (chain_ends n cfg0 ex_state ?g \<or>
               fst (verify_blocks cfg0 ex_state (chain_prefix n cfg0 ex_state ?g)) = 0) \<and>
              ?r = verify_blocks cfg0 ex_state (chain_prefix n cfg0 ex_state ?g)"
    using w by (intro exI [of _ 1]) simp
  then have fail: "umm_poison_check cfg0 ex_init ex_uninit = Some ?r"
    using u umm_poison_check_single_pass [of cfg0 ex_init ex_uninit ?r]
    by (simp add: Let_def)
  from pass fail show ?thesis by simp
qed

section \<open>Memory writes and reads\<close>

lemma memset_apply: "memset m p c n a = (if a \<in> set (region p n) then c else m a)"
  by (induction n) (auto simp: region_0 region_Suc)

lemma store_le_outside: "a \<notin> set (region p n) \<Longrightarrow> store_le m p n v a = m a"
  by (induction n) (auto simp: region_0 region_Suc)

lemma of_nat_eq32:
  "i < 2 ^ 32 \<Longrightarrow> j < 2 ^ 32 \<Longrightarrow> (of_nat i :: ptr) = of_nat j \<longleftrightarrow> i = j"
  by (simp add: word_of_nat_eq_iff take_bit_nat_eq_self)

lemma ptr_offset_eq:
  "i < 2 ^ 32 \<Longrightarrow> j < 2 ^ 32 \<Longrightarrow> (p :: ptr) + of_nat i = p + of_nat j \<longleftrightarrow> i = j"
  by (simp add: of_nat_eq32)

lemma store_le_at:
  "k < n \<Longrightarrow> n \<le> 2 ^ 32 \<Longrightarrow> store_le m p n v (p + of_nat k) = ucast (drop_bit (8 * k) v)"
proof (induction n)
  case 0
  then show ?case by simp
next
  case (Suc n)
  show ?case
  proof (cases "k = n")
    case True
    then show ?thesis by simp
  next
    case False
    with Suc.prems have kn: "k < n" "n < 2 ^ 32" "k < 2 ^ 32" by simp_all
    then have "p + of_nat k \<noteq> p + of_nat n"
      using False ptr_offset_eq [of k n p] by blast
    with Suc.IH kn show ?thesis by simp
  qed
qed

lemma take_bit_next_byte:
  "take_bit (8 * k) (v :: size_t) OR push_bit (8 * k) (ucast (ucast (drop_bit (8 * k) v) :: byte))
     = take_bit (8 * Suc k) v"
  by (rule bit_word_eqI) (auto simp: bit_simps)

lemma load_store_le:
  "k \<le> n \<Longrightarrow> n \<le> 2 ^ 32 \<Longrightarrow> load_le (store_le m p n v) p k = take_bit (8 * k) v"
proof (induction k)
  case 0
  then show ?case by simp
next
  case (Suc k)
  then have "load_le (store_le m p n v) p k = take_bit (8 * k) v" by simp
  moreover have "store_le m p n v (p + of_nat k) = ucast (drop_bit (8 * k) v)"
    using Suc.prems by (simp add: store_le_at)
  ultimately show ?case
    using take_bit_next_byte [of k v] by simp
qed

lemma load_le_agree:
  "\<forall>a\<in>set (region p n). m' a = m a \<Longrightarrow> load_le m' p n = load_le m p n"
  by (induction n) (simp_all add: region_Suc)

section \<open>States that agree on the bytes read\<close>

lemma UMM_NBLOCK_agree:
  assumes "umm_heap st' = umm_heap st"
    and "\<forall>a\<in>set (link_bytes cfg st b). mem st' a = mem st a"
  shows "UMM_NBLOCK cfg st' b = UMM_NBLOCK cfg st b"
proof -
  have "UMM_BLOCK cfg st' b = UMM_BLOCK cfg st b"
    using assms(1) by (simp add: UMM_BLOCK_def)
  moreover have "load_le (mem st') (UMM_BLOCK cfg st b) 2 = load_le (mem st) (UMM_BLOCK cfg st b) 2"
    using assms(2) by (intro load_le_agree) (simp add: link_bytes_def)
  ultimately show ?thesis
    by (simp add: UMM_NBLOCK_def header_used_next_def)
qed

lemma chain_agree:
  assumes "umm_heap st' = umm_heap st"
  shows "\<forall>b\<in>set (chain_nodes n cfg st cur). \<forall>a\<in>set (link_bytes cfg st b). mem st' a = mem st a \<Longrightarrow>
    chain_nodes n cfg st' cur = chain_nodes n cfg st cur \<and>
    chain_prefix n cfg st' cur = chain_prefix n cfg st cur \<and>
    chain_ends n cfg st' cur = chain_ends n cfg st cur"
proof (induction n arbitrary: cur)
  case 0
  then show ?case by simp
next
  case (Suc n)
  have eq: "UMM_NBLOCK cfg st' cur = UMM_NBLOCK cfg st cur"
    using Suc.prems by (intro UMM_NBLOCK_agree [OF assms]) simp
  show ?case
  proof (cases "UMM_NBLOCK cfg st cur AND UMM_BLOCKNO_MASK = 0")
    case True
    with eq show ?thesis by simp
  next
    case False
    with Suc.prems have "\<forall>b\<in>set (chain_nodes n cfg st (UMM_NBLOCK cfg st cur AND UMM_BLOCKNO_MASK)).
        \<forall>a\<in>set (link_bytes cfg st b). mem st' a = mem st a"
      by simp
    from Suc.IH [OF this] False eq show ?thesis by simp
  qed
qed

lemma chain_prefix_nodes: "set (chain_prefix n cfg st cur) \<subseteq> set (chain_nodes n cfg st cur)"
  by (induction n arbitrary: cur) auto

lemma poison_agree:
  assumes "\<forall>a\<in>set (poison_bytes cfg st pb). mem st' a = mem st a"
  shows "after_guard cfg st' pb = after_guard cfg st pb"
    and "block_poison_ok cfg st' pb = block_poison_ok cfg st pb"
proof -
  have "load_len cfg (mem st') (pb + offsetof_body cfg) = load_len cfg (mem st) (pb + offsetof_body cfg)"
    unfolding load_len_def using assms
    by (intro load_le_agree) (simp add: poison_bytes_def len_bytes_def)
  then show ag: "after_guard cfg st' pb = after_guard cfg st pb"
    by (simp add: after_guard_def)
  then have ab: "after_bytes cfg st' pb = after_bytes cfg st pb"
    by (simp add: after_bytes_def)
  show "block_poison_ok cfg st' pb = block_poison_ok cfg st pb"
    using assms unfolding block_poison_ok_def ab
    by (auto simp: poison_bytes_def list_all_iff)
qed

section \<open>Verifying a list of blocks\<close>

lemma block_used_header:
  "block_used cfg st b \<longleftrightarrow> header_used_next st (UMM_BLOCK cfg st b) AND UMM_FREELIST_MASK = 0"
  by (simp add: block_used_def UMM_NBLOCK_def)

lemma verify_blocks_all_ok:
  "\<forall>b\<in>set bs. block_used cfg st b \<longrightarrow> block_poison_ok cfg st (UMM_BLOCK cfg st b) \<Longrightarrow>
   verify_blocks cfg st bs = (1, st)"
proof (induction bs)
  case Nil
  then show ?case by simp
next
  case (Cons b bs)
  then show ?case
    by (cases "block_used cfg st b") (simp_all add: check_poison_block_ok block_used_header)
qed

lemma verify_blocks_first_bad:
  assumes "block_used cfg st c" "\<not> block_poison_ok cfg st (UMM_BLOCK cfg st c)"
  shows "c \<in> set bs \<Longrightarrow>
     \<forall>b\<in>set bs. block_used cfg st b \<and> b \<noteq> c \<longrightarrow> block_poison_ok cfg st (UMM_BLOCK cfg st b) \<Longrightarrow>
     verify_blocks cfg st bs = check_poison_block cfg st (UMM_BLOCK cfg st c)"
proof (induction bs)
  case Nil
  then show ?case by simp
next
  case (Cons b bs)
  show ?case
  proof (cases "b = c")
    case True
    obtain ok st' where r: "check_poison_block cfg st (UMM_BLOCK cfg st c) = (ok, st')"
      by (cases "check_poison_block cfg st (UMM_BLOCK cfg st c)")
    with check_poison_block_bad [of st "UMM_BLOCK cfg st c" cfg] assms have "ok = 0"
      by (simp add: block_used_header)
    with r True assms show ?thesis by simp
  next
    case False
    with Cons.prems have c: "c \<in> set bs" by simp
    from Cons.prems have rest:
      "\<forall>b\<in>set bs. block_used cfg st b \<and> b \<noteq> c \<longrightarrow> block_poison_ok cfg st (UMM_BLOCK cfg st b)"
      by simp
    show ?thesis
    proof (cases "block_used cfg st b")
      case True
      with False Cons.prems have "block_poison_ok cfg st (UMM_BLOCK cfg st b)" by simp
      with True have "check_poison_block cfg st (UMM_BLOCK cfg st b) = (1, st)"
        by (simp add: check_poison_block_ok block_used_header)
      with True Cons.IH [OF c rest] show ?thesis by simp
    next
      case False
      with Cons.IH [OF c rest] show ?thesis by simp
    qed
  qed
qed

section \<open>Detection of a corrupted guard byte\<close>

lemma after_guard_agree:
  assumes "\<forall>a\<in>set (len_bytes cfg pb). mem st' a = mem st a"
  shows "after_guard cfg st' pb = after_guard cfg st pb"
proof -
  have "load_len cfg (mem st') (pb + offsetof_body cfg) = load_len cfg (mem st) (pb + offsetof_body cfg)"
    unfolding load_len_def using assms
    by (intro load_le_agree) (simp add: len_bytes_def)
  then show ?thesis
    by (simp add: after_guard_def)
qed

lemma check_poison_block_corrupted:
  assumes used: "header_used_next st' pb AND UMM_FREELIST_MASK = 0"
    and ok: "block_poison_ok cfg st pb"
    and layout: "distinct (poison_bytes cfg st pb)"
    and a_in: "a \<in> set (region (guard_start side cfg st pb) (unat (guard_size side cfg)))"
    and bad: "mem st' a \<noteq> POISON_BYTE"
    and same: "\<And>x. x \<noteq> a \<Longrightarrow> mem st' x = mem st x"
  shows "check_poison_block cfg st' pb =
     (0, st'\<lparr>dbglog := dbglog st' @
            poison_report st' (side_name side) (guard_start side cfg st pb) (guard_size side cfg)\<rparr>)"
proof -
  have d: "set (len_bytes cfg pb) \<inter> set (before_bytes cfg pb) = {}"
      "set (len_bytes cfg pb) \<inter> set (after_bytes cfg st pb) = {}"
      "set (before_bytes cfg pb) \<inter> set (after_bytes cfg st pb) = {}"
    using layout by (auto simp: poison_bytes_def)
  have a_guard: "a \<in> set (before_bytes cfg pb) \<or> a \<in> set (after_bytes cfg st pb)"
    using a_in by (cases side) (simp_all add: before_bytes_def after_bytes_def)
  then have "a \<notin> set (len_bytes cfg pb)"
    using d by blast
  then have "\<forall>x\<in>set (len_bytes cfg pb). mem st' x = mem st x"
    using same by metis
  then have ag: "after_guard cfg st' pb = after_guard cfg st pb"
    by (rule after_guard_agree)
  then have ab: "after_bytes cfg st' pb = after_bytes cfg st pb"
    by (simp add: after_bytes_def)
  show ?thesis
  proof (cases side)
    case Before_guard
    with a_in have "a \<in> set (before_bytes cfg pb)"
      by (simp add: before_bytes_def)
    with bad have "\<not> list_all (\<lambda>x. mem st' x = POISON_BYTE) (before_bytes cfg pb)"
      by (auto simp: list_all_iff)
    with used Before_guard show ?thesis
      by (simp add: check_poison_block_used)
  next
    case After_guard
    with a_in have m: "a \<in> set (after_bytes cfg st pb)"
      by (simp add: after_bytes_def)
    with d have "a \<notin> set (before_bytes cfg pb)" by blast
    then have "\<forall>x\<in>set (before_bytes cfg pb). mem st' x = mem st x"
      using same by metis
    with ok have b: "list_all (\<lambda>x. mem st' x = POISON_BYTE) (before_bytes cfg pb)"
      by (simp add: block_poison_ok_def list_all_iff)
    from m bad have "\<not> list_all (\<lambda>x. mem st' x = POISON_BYTE) (after_bytes cfg st' pb)"
      unfolding ab by (auto simp: list_all_iff)
    with used After_guard b ag show ?thesis
      by (simp add: check_poison_block_used)
  qed
qed

text \<open>
  C1: take an initialised heap whose chain ends, in which every used block of the chain
  holds an intact poisoned allocation, and overwrite one byte \<open>a\<close> of one guard (before or
  after) of one used block \<open>c\<close> of the chain with a value other than the poison byte, where
  the length record and the guards of \<open>c\<close> do not overlap and \<open>a\<close> belongs neither to a link
  field of the chain nor to the poison bytes of another used block. Then \<open>umm_poison_check\<close>
  returns 0, and what it logs is the report of that side (\<open>''before''\<close> or \<open>''after''\<close>) at
  the start address of that guard of block \<open>c\<close>, with the bytes found there, followed by the
  fatal assertion.
\<close>

theorem single_byte_corruption_detected:
  fixes cfg :: umm_cfg and st st' :: umm_state and c h :: ushort and a pb :: ptr and v :: byte
  defines "h \<equiv> UMM_NBLOCK cfg st 0 AND UMM_BLOCKNO_MASK"
    and "pb \<equiv> UMM_BLOCK cfg st c"
    and "st' \<equiv> st\<lparr>mem := (mem st)(a := v)\<rparr>"
  assumes init: "umm_heap st \<noteq> NULL"
    and ends: "chain_ends n cfg st h"
    and c_in: "c \<in> set (chain_prefix n cfg st h)"
    and c_used: "block_used cfg st c"
    and good: "\<forall>b\<in>set (chain_prefix n cfg st h).
                 block_used cfg st b \<longrightarrow> block_poison_ok cfg st (UMM_BLOCK cfg st b)"
    and layout: "distinct (poison_bytes cfg st pb)"
    and a_in: "a \<in> set (region (guard_start side cfg st pb) (unat (guard_size side cfg)))"
    and v: "v \<noteq> POISON_BYTE"
    and links: "\<forall>b\<in>set (0 # chain_nodes n cfg st h). a \<notin> set (link_bytes cfg st b)"
    and others: "\<forall>b\<in>set (chain_prefix n cfg st h).
                   block_used cfg st b \<and> b \<noteq> c \<longrightarrow>
                   a \<notin> set (poison_bytes cfg st (UMM_BLOCK cfg st b))"
  shows "umm_poison_check cfg umm_init st' =
     Some (0, st'\<lparr>dbglog := dbglog st @
                 poison_report st' (side_name side) (guard_start side cfg st pb)
                   (guard_size side cfg)\<rparr>)"
proof -
  have heap: "umm_heap st' = umm_heap st"
    by (simp add: st'_def)
  have same: "\<And>x. x \<noteq> a \<Longrightarrow> mem st' x = mem st x"
    by (simp add: st'_def)
  have blk: "\<And>b. UMM_BLOCK cfg st' b = UMM_BLOCK cfg st b"
    by (simp add: UMM_BLOCK_def heap)
  have link_same: "\<And>b. a \<notin> set (link_bytes cfg st b) \<Longrightarrow> UMM_NBLOCK cfg st' b = UMM_NBLOCK cfg st b"
    using same by (intro UMM_NBLOCK_agree [OF heap]) metis
  have h': "UMM_NBLOCK cfg st' 0 AND UMM_BLOCKNO_MASK = h"
    using links link_same [of 0] by (simp add: h_def)
  have "\<forall>b\<in>set (chain_nodes n cfg st h). \<forall>x\<in>set (link_bytes cfg st b). mem st' x = mem st x"
    using links same by (metis list.set_intros(2))
  from chain_agree [OF heap this]
  have pre: "chain_prefix n cfg st' h = chain_prefix n cfg st h"
    and en: "chain_ends n cfg st' h"
    using ends by simp_all
  have used_same: "\<And>b. b \<in> set (chain_prefix n cfg st h) \<Longrightarrow>
      block_used cfg st' b = block_used cfg st b"
  proof -
    fix b assume "b \<in> set (chain_prefix n cfg st h)"
    then have "b \<in> set (chain_nodes n cfg st h)"
      using chain_prefix_nodes by blast
    with links have "a \<notin> set (link_bytes cfg st b)" by simp
    from link_same [OF this] show "block_used cfg st' b = block_used cfg st b"
      by (simp add: block_used_def)
  qed
  have c_used': "block_used cfg st' c"
    using used_same [OF c_in] c_used by simp
  then have hdr: "header_used_next st' pb AND UMM_FREELIST_MASK = 0"
    by (simp add: block_used_header blk pb_def)
  have c_ok: "block_poison_ok cfg st pb"
    using good c_in c_used by (simp add: pb_def)
  have "mem st' a \<noteq> POISON_BYTE"
    using v by (simp add: st'_def)
  from check_poison_block_corrupted [OF hdr c_ok layout a_in this same]
  have res: "check_poison_block cfg st' pb =
     (0, st'\<lparr>dbglog := dbglog st' @
            poison_report st' (side_name side) (guard_start side cfg st pb) (guard_size side cfg)\<rparr>)"
    by simp
  have c_bad: "\<not> block_poison_ok cfg st' (UMM_BLOCK cfg st' c)"
    using check_poison_block_ok [OF hdr, of cfg] res by (auto simp: blk pb_def)
  have rest: "\<forall>b\<in>set (chain_prefix n cfg st' h).
      block_used cfg st' b \<and> b \<noteq> c \<longrightarrow> block_poison_ok cfg st' (UMM_BLOCK cfg st' b)"
  proof (intro ballI impI)
    fix b assume b: "b \<in> set (chain_prefix n cfg st' h)" and u: "block_used cfg st' b \<and> b \<noteq> c"
    from b have b_in: "b \<in> set (chain_prefix n cfg st h)" by (simp add: pre)
    with u used_same have bu: "block_used cfg st b" by simp
    with others b_in u have "a \<notin> set (poison_bytes cfg st (UMM_BLOCK cfg st b))" by simp
    then have "\<forall>x\<in>set (poison_bytes cfg st (UMM_BLOCK cfg st b)). mem st' x = mem st x"
      using same by metis
    from poison_agree(2) [OF this] good b_in bu
    show "block_poison_ok cfg st' (UMM_BLOCK cfg st' b)"
      by (simp add: blk)
  qed
  have c_in': "c \<in> set (chain_prefix n cfg st' h)"
    using c_in by (simp add: pre)
  have "verify_blocks cfg st' (chain_prefix n cfg st' h) =
          check_poison_block cfg st' (UMM_BLOCK cfg st' c)"
    by (rule verify_blocks_first_bad [OF c_used' c_bad c_in' rest])
  moreover have "umm_poison_check_loop cfg st' h 1 =
      Some (verify_blocks cfg st' (chain_prefix n cfg st' h))"
    using en by (intro loop_verify) simp
  moreover have "umm_poison_check cfg umm_init st' = umm_poison_check_loop cfg st' h 1"
    using init by (simp add: umm_poison_check_def heap h' Let_def)
  moreover have "dbglog st' = dbglog st"
    by (simp add: st'_def)
  ultimately show ?thesis
    using res by (simp add: blk pb_def)
qed

lemmas layout_defs =
  block_used_def block_poison_ok_def poison_bytes_def len_bytes_def before_bytes_def
  after_bytes_def before_guard_def after_guard_def link_bytes_def poison_report_def

theorem single_byte_corruption_detected_witness:
  "umm_poison_check cfg0 ex_init (ex_poisoned\<lparr>mem := (mem ex_poisoned)(0x1010 := 0)\<rparr>) =
     Some (0, ex_poisoned\<lparr>mem := (mem ex_poisoned)(0x1010 := 0),
                dbglog := [No_poison ''before'' 0x100E, Dump_byte 0xa5, Dump_byte 0xa5,
                           Dump_byte 0, Dump_byte 0xa5, Newline, App_error_check_failed]\<rparr>) \<and>
   umm_poison_check cfg0 ex_init (ex_poisoned\<lparr>mem := (mem ex_poisoned)(0x101F := 7)\<rparr>) =
     Some (0, ex_poisoned\<lparr>mem := (mem ex_poisoned)(0x101F := 7),
                dbglog := [No_poison ''after'' 0x101C, Dump_byte 0xa5, Dump_byte 0xa5,
                           Dump_byte 0xa5, Dump_byte 7, Newline, App_error_check_failed]\<rparr>)"
proof -
  let ?h = "UMM_NBLOCK cfg0 ex_poisoned 0 AND UMM_BLOCKNO_MASK"
  let ?pb = "UMM_BLOCK cfg0 ex_poisoned 1"
  note ev = ex_poisoned_def ex_defs model_defs chain_numerals layout_defs Let_def
  have h: "?h = 1" by (simp add: ev)
  have pre: "chain_prefix 3 cfg0 ex_poisoned 1 = [1, 4]" by (simp add: ev)
  have nodes: "chain_nodes 3 cfg0 ex_poisoned 1 = [1, 4, 5]" by (simp add: ev)
  have init: "umm_heap ex_poisoned \<noteq> NULL" by (simp add: ev)
  have ends: "chain_ends 3 cfg0 ex_poisoned ?h" by (simp add: ev)
  have c_in: "1 \<in> set (chain_prefix 3 cfg0 ex_poisoned ?h)" by (simp add: h pre)
  have c_used: "block_used cfg0 ex_poisoned 1" by (simp add: ev)
  have good: "\<forall>b\<in>set (chain_prefix 3 cfg0 ex_poisoned ?h).
      block_used cfg0 ex_poisoned b \<longrightarrow> block_poison_ok cfg0 ex_poisoned (UMM_BLOCK cfg0 ex_poisoned b)"
    unfolding h pre by (simp add: ev)
  have layout: "distinct (poison_bytes cfg0 ex_poisoned ?pb)" by (simp add: ev)
  have a1: "0x1010 \<in> set (region (guard_start Before_guard cfg0 ex_poisoned ?pb)
                (unat (guard_size Before_guard cfg0)))"
    by (simp add: ev)
  have a2: "0x101F \<in> set (region (guard_start After_guard cfg0 ex_poisoned ?pb)
                (unat (guard_size After_guard cfg0)))"
    by (simp add: ev)
  have v1: "(0 :: byte) \<noteq> POISON_BYTE" and v2: "(7 :: byte) \<noteq> POISON_BYTE"
    by (simp_all add: POISON_BYTE_def)
  have links1: "\<forall>b\<in>set (0 # chain_nodes 3 cfg0 ex_poisoned ?h).
      0x1010 \<notin> set (link_bytes cfg0 ex_poisoned b)"
    unfolding h nodes by (simp add: ev)
  have links2: "\<forall>b\<in>set (0 # chain_nodes 3 cfg0 ex_poisoned ?h).
      0x101F \<notin> set (link_bytes cfg0 ex_poisoned b)"
    unfolding h nodes by (simp add: ev)
  have others1: "\<forall>b\<in>set (chain_prefix 3 cfg0 ex_poisoned ?h).
      block_used cfg0 ex_poisoned b \<and> b \<noteq> 1 \<longrightarrow>
      0x1010 \<notin> set (poison_bytes cfg0 ex_poisoned (UMM_BLOCK cfg0 ex_poisoned b))"
    unfolding h pre by (simp add: ev)
  have others2: "\<forall>b\<in>set (chain_prefix 3 cfg0 ex_poisoned ?h).
      block_used cfg0 ex_poisoned b \<and> b \<noteq> 1 \<longrightarrow>
      0x101F \<notin> set (poison_bytes cfg0 ex_poisoned (UMM_BLOCK cfg0 ex_poisoned b))"
    unfolding h pre by (simp add: ev)
  have r1: "poison_report (ex_poisoned\<lparr>mem := (mem ex_poisoned)(0x1010 := 0)\<rparr>)
              (side_name Before_guard) (guard_start Before_guard cfg0 ex_poisoned ?pb)
              (guard_size Before_guard cfg0) =
            [No_poison ''before'' 0x100E, Dump_byte 0xa5, Dump_byte 0xa5,
             Dump_byte 0, Dump_byte 0xa5, Newline, App_error_check_failed]"
    by (simp add: ev)
  have r2: "poison_report (ex_poisoned\<lparr>mem := (mem ex_poisoned)(0x101F := 7)\<rparr>)
              (side_name After_guard) (guard_start After_guard cfg0 ex_poisoned ?pb)
              (guard_size After_guard cfg0) =
            [No_poison ''after'' 0x101C, Dump_byte 0xa5, Dump_byte 0xa5,
             Dump_byte 0xa5, Dump_byte 7, Newline, App_error_check_failed]"
    by (simp add: ev)
  have l: "dbglog ex_poisoned = []" by (simp add: ev)
  from single_byte_corruption_detected
    [OF init ends c_in c_used good layout a1 v1 links1 others1, of ex_init]
    single_byte_corruption_detected
    [OF init ends c_in c_used good layout a2 v2 links2 others2, of ex_init]
  show ?thesis
    unfolding r1 r2 l by simp
qed

section \<open>What \<open>get_poisoned\<close> writes\<close>

lemma region_offset:
  "set (region (p + of_nat off) n) = {p + of_nat (off + i) |i. i < n}"
  by (auto simp: set_region add.assoc)

lemma region_subset:
  "off + n \<le> N \<Longrightarrow> set (region (p + of_nat off) n) \<subseteq> set (region p N)"
proof
  fix x assume "x \<in> set (region (p + of_nat off) n)"
  then obtain i where i: "i < n" "x = p + of_nat (off + i)"
    unfolding region_offset by blast
  assume "off + n \<le> N"
  with i have "off + i < N" by simp
  with i show "x \<in> set (region p N)"
    unfolding set_region by blast
qed

lemma region_disjoint:
  assumes "off1 + n1 \<le> off2" "off2 + n2 \<le> 2 ^ 32"
  shows "set (region ((p :: ptr) + of_nat off1) n1) \<inter> set (region (p + of_nat off2) n2) = {}"
proof -
  have "p + of_nat (off1 + i) \<noteq> p + of_nat (off2 + j)" if "i < n1" "j < n2" for i j
  proof -
    have "off1 + i < 2 ^ 32" "off2 + j < 2 ^ 32" "off1 + i \<noteq> off2 + j"
      using assms that by simp_all
    then show ?thesis
      using ptr_offset_eq [of "off1 + i" "off2 + j" p] by blast
  qed
  then show ?thesis
    unfolding region_offset by blast
qed

lemma unat_lt32: "unat (w :: size_t) < 2 ^ 32"
  using unsigned_less [of w, where 'a=nat] by simp

lemma ptr_sub_offset:
  "unat a \<le> unat t \<Longrightarrow> (p :: ptr) + t - a = p + of_nat (unat t - unat a)"
  by (simp add: of_nat_diff)

lemma get_poisoned_state:
  assumes "t \<noteq> 0" "p \<noteq> NULL"
  shows "snd (get_poisoned cfg st p t) =
     st\<lparr>mem := store_le
                 (memset (memset (mem st) (p + sizeof_len cfg) POISON_BYTE
                            (unat (UMM_POISON_SIZE_BEFORE cfg)))
                    (p + t - UMM_POISON_SIZE_AFTER cfg) POISON_BYTE
                    (unat (UMM_POISON_SIZE_AFTER cfg)))
                 p (unat (sizeof_len cfg)) t\<rparr>"
    and "fst (get_poisoned cfg st p t) = p + sizeof_len cfg + UMM_POISON_SIZE_BEFORE cfg"
  using assms by (simp_all add: get_poisoned_def put_poison_def store_len_def Let_def)

lemma get_poisoned_len:
  assumes "t \<noteq> 0" "p \<noteq> NULL"
  shows "load_len cfg (mem (snd (get_poisoned cfg st p t))) p =
           take_bit (8 * unat (sizeof_len cfg)) t"
  using unat_lt32 [of "sizeof_len cfg"]
  by (simp add: get_poisoned_state [OF assms] load_len_def load_store_le)

lemma get_poisoned_outside:
  assumes "unat (sizeof_len cfg) + unat (UMM_POISON_SIZE_BEFORE cfg)
             + unat (UMM_POISON_SIZE_AFTER cfg) \<le> unat t"
    and "x \<notin> set (region p (unat t))"
  shows "mem (snd (get_poisoned cfg st p t)) x = mem st x"
proof (cases "t \<noteq> 0 \<and> p \<noteq> NULL")
  case False
  then show ?thesis by (auto simp: get_poisoned_def)
next
  case True
  let ?L = "unat (sizeof_len cfg)" and ?B = "unat (UMM_POISON_SIZE_BEFORE cfg)"
    and ?A = "unat (UMM_POISON_SIZE_AFTER cfg)"
  have "set (region (p + of_nat 0) ?L) \<subseteq> set (region p (unat t))"
    using assms(1) by (intro region_subset) simp
  then have x1: "x \<notin> set (region p ?L)"
    using assms(2) by auto
  have "set (region (p + of_nat ?L) ?B) \<subseteq> set (region p (unat t))"
    using assms(1) by (intro region_subset) simp
  then have x2: "x \<notin> set (region (p + sizeof_len cfg) ?B)"
    using assms(2) by auto
  have after: "p + t - UMM_POISON_SIZE_AFTER cfg = p + of_nat (unat t - ?A)"
    using assms(1) by (intro ptr_sub_offset) simp
  have "set (region (p + t - UMM_POISON_SIZE_AFTER cfg) ?A) \<subseteq> set (region p (unat t))"
    unfolding after using assms(1) by (intro region_subset) simp
  then have x3: "x \<notin> set (region (p + t - UMM_POISON_SIZE_AFTER cfg) ?A)"
    using assms(2) by auto
  from True x1 x2 x3 show ?thesis
    by (simp add: get_poisoned_state store_le_outside memset_apply)
qed

lemma get_poisoned_guards:
  assumes "unat (sizeof_len cfg) + unat (UMM_POISON_SIZE_BEFORE cfg)
             + unat (UMM_POISON_SIZE_AFTER cfg) \<le> unat t"
    and "p \<noteq> NULL"
  shows "list_all (\<lambda>x. mem (snd (get_poisoned cfg st p t)) x = POISON_BYTE)
           (region (p + sizeof_len cfg) (unat (UMM_POISON_SIZE_BEFORE cfg)))"
    and "list_all (\<lambda>x. mem (snd (get_poisoned cfg st p t)) x = POISON_BYTE)
           (region (p + t - UMM_POISON_SIZE_AFTER cfg) (unat (UMM_POISON_SIZE_AFTER cfg)))"
proof -
  let ?L = "unat (sizeof_len cfg)" and ?B = "unat (UMM_POISON_SIZE_BEFORE cfg)"
    and ?A = "unat (UMM_POISON_SIZE_AFTER cfg)"
  let ?st = "snd (get_poisoned cfg st p t)"
  have after: "p + t - UMM_POISON_SIZE_AFTER cfg = p + of_nat (unat t - ?A)"
    using assms(1) by (intro ptr_sub_offset) simp
  have t32: "unat t < 2 ^ 32" by (rule unat_lt32)
  have "list_all (\<lambda>x. mem ?st x = POISON_BYTE) (region (p + sizeof_len cfg) ?B) \<and>
        list_all (\<lambda>x. mem ?st x = POISON_BYTE) (region (p + t - UMM_POISON_SIZE_AFTER cfg) ?A)"
  proof (cases "t = 0")
    case True
    with assms(1) have "?B = 0" "?A = 0" by simp_all
    then show ?thesis by (simp add: region_0)
  next
    case False
    have "set (region (p + of_nat 0) ?L) \<inter> set (region (p + of_nat ?L) ?B) = {}"
      using assms(1) t32 by (intro region_disjoint) simp_all
    then have d1: "\<forall>x\<in>set (region (p + sizeof_len cfg) ?B). x \<notin> set (region p ?L)"
      by auto
    have "set (region (p + of_nat 0) ?L) \<inter> set (region (p + of_nat (unat t - ?A)) ?A) = {}"
      using assms(1) t32 by (intro region_disjoint) simp_all
    then have d2: "\<forall>x\<in>set (region (p + t - UMM_POISON_SIZE_AFTER cfg) ?A). x \<notin> set (region p ?L)"
      unfolding after by auto
    from False assms(2) d1 d2 show ?thesis
      by (simp add: get_poisoned_state store_le_outside memset_apply list_all_iff)
  qed
  then show "list_all (\<lambda>x. mem ?st x = POISON_BYTE) (region (p + sizeof_len cfg) ?B)"
    and "list_all (\<lambda>x. mem ?st x = POISON_BYTE) (region (p + t - UMM_POISON_SIZE_AFTER cfg) ?A)"
    by simp_all
qed

lemma get_poisoned_heap:
  "umm_heap (snd (get_poisoned cfg st p t)) = umm_heap st"
  "dbglog (snd (get_poisoned cfg st p t)) = dbglog st"
  by (simp_all add: get_poisoned_def Let_def)

lemma take_bit_fits:
  "unat (t :: size_t) < 2 ^ n \<Longrightarrow> take_bit n t = t"
  by (simp add: word_unat_eq_iff unsigned_take_bit_eq take_bit_nat_eq_self)

lemma unat_total:
  assumes "s \<noteq> 0"
    and "unat s + (unat (sizeof_len cfg) + unat (UMM_POISON_SIZE_BEFORE cfg)
           + unat (UMM_POISON_SIZE_AFTER cfg)) < 2 ^ 32"
  shows "unat (s + poison_size cfg s) =
           unat s + (unat (sizeof_len cfg) + unat (UMM_POISON_SIZE_BEFORE cfg)
             + unat (UMM_POISON_SIZE_AFTER cfg))"
proof -
  have "unat (poison_size cfg s) = unat (UMM_POISON_SIZE_BEFORE cfg) + unat (sizeof_len cfg)
          + unat (UMM_POISON_SIZE_AFTER cfg)"
    using assms by (simp add: poison_size_def unat_word_ariths)
  then show ?thesis
    using assms(2) by (simp add: unat_word_ariths)
qed

section \<open>Properties of poisoned allocations\<close>

text \<open>
  C7, as the code has it: when the allocation is not null and the total (the wrapped
  product plus its overhead) is at least the poison overhead, which is the case whenever
  the user size is not zero and adding the overhead does not wrap, \<open>umm_poison_calloc\<close> is
  \<open>get_poisoned\<close> run on the state in which all \<open>tot\<close> bytes of the block have been set to
  zero, and afterwards every byte of the before-guard and of the after-guard holds the
  poison byte.
\<close>

theorem umm_poison_calloc_zero_fill_then_poison:
  assumes "tot = item_size * num + poison_size cfg (item_size * num)"
    and "umm_malloc st tot = (ret, st1)"
    and "ret \<noteq> NULL"
    and "unat (sizeof_len cfg) + unat (UMM_POISON_SIZE_BEFORE cfg)
           + unat (UMM_POISON_SIZE_AFTER cfg) \<le> unat tot"
  shows "umm_poison_calloc cfg umm_malloc st num item_size =
           get_poisoned cfg (st1\<lparr>mem := memset (mem st1) ret 0 (unat tot)\<rparr>) ret tot \<and>
         list_all (\<lambda>x. memset (mem st1) ret 0 (unat tot) x = 0) (region ret (unat tot)) \<and>
         list_all (\<lambda>x. mem (snd (umm_poison_calloc cfg umm_malloc st num item_size)) x = POISON_BYTE)
           (region (ret + sizeof_len cfg) (unat (UMM_POISON_SIZE_BEFORE cfg))) \<and>
         list_all (\<lambda>x. mem (snd (umm_poison_calloc cfg umm_malloc st num item_size)) x = POISON_BYTE)
           (region (ret + tot - UMM_POISON_SIZE_AFTER cfg) (unat (UMM_POISON_SIZE_AFTER cfg)))"
proof -
  have run: "umm_poison_calloc cfg umm_malloc st num item_size =
           get_poisoned cfg (st1\<lparr>mem := memset (mem st1) ret 0 (unat tot)\<rparr>) ret tot"
    using assms(1,2,3) by (simp add: umm_poison_calloc_def Let_def)
  have zero: "list_all (\<lambda>x. memset (mem st1) ret 0 (unat tot) x = 0) (region ret (unat tot))"
    by (simp add: memset_apply list_all_iff)
  show ?thesis
    unfolding run using zero get_poisoned_guards [OF assms(4,3)] by simp
qed

theorem umm_poison_calloc_zero_fill_then_poison_witness:
  "umm_poison_calloc cfg0 ex_malloc ex_state 5 2 =
     get_poisoned cfg0 (ex_state\<lparr>mem := memset (mem ex_state) 0x100C 0 20\<rparr>) 0x100C 20 \<and>
   list_all (\<lambda>x. mem (snd (umm_poison_calloc cfg0 ex_malloc ex_state 5 2)) x = POISON_BYTE)
     (region 0x100E 4) \<and>
   list_all (\<lambda>x. mem (snd (umm_poison_calloc cfg0 ex_malloc ex_state 5 2)) x = POISON_BYTE)
     (region 0x101C 4)"
proof -
  have t: "(20 :: size_t) = 2 * 5 + poison_size cfg0 (2 * 5)"
    by (simp add: poison_size_def cfg0_simps)
  have alloc: "ex_malloc ex_state 20 = (0x100C, ex_state)" by (simp add: ex_malloc_def)
  have ret: "(0x100C :: ptr) \<noteq> NULL" by (simp add: NULL_def)
  have ov: "unat (sizeof_len cfg0) + unat (UMM_POISON_SIZE_BEFORE cfg0)
              + unat (UMM_POISON_SIZE_AFTER cfg0) \<le> unat (20 :: size_t)"
    by (simp add: cfg0_simps)
  have r: "(0x100C :: ptr) + sizeof_len cfg0 = 0x100E"
      "(0x100C :: ptr) + 20 - UMM_POISON_SIZE_AFTER cfg0 = 0x101C"
      "unat (UMM_POISON_SIZE_BEFORE cfg0) = 4" "unat (UMM_POISON_SIZE_AFTER cfg0) = 4"
      "unat (20 :: size_t) = 20"
    by (simp_all add: cfg0_simps)
  from umm_poison_calloc_zero_fill_then_poison
    [where umm_malloc = ex_malloc and st = ex_state and cfg = cfg0 and num = 5 and item_size = 2,
      OF t alloc ret ov]
  show ?thesis
    unfolding r by blast
qed

text \<open>
  C7 as stated fails when the total wraps: for one item of size \<open>2 ^ 32 - 5\<close> the total is
  5, the after-guard then starts at 0x100D, one byte after the start of the block, and its
  first byte holds 0 afterwards, the length record having been written over it.
\<close>

theorem umm_poison_calloc_wrapped_guard_clobbered:
  "fst (ex_malloc ex_state (0xFFFFFFFB * 1 + poison_size cfg0 (0xFFFFFFFB * 1))) \<noteq> NULL \<and>
   0x100C + (0xFFFFFFFB * 1 + poison_size cfg0 (0xFFFFFFFB * 1)) - UMM_POISON_SIZE_AFTER cfg0
     = 0x100D \<and>
   mem (snd (umm_poison_calloc cfg0 ex_malloc ex_state 1 0xFFFFFFFB)) 0x100D = 0 \<and>
   mem (snd (umm_poison_calloc cfg0 ex_malloc ex_state 1 0xFFFFFFFB)) 0x100D \<noteq> POISON_BYTE"
  by (simp add: ex_defs model_defs Let_def)

text \<open>
  C5, as the code has it: after a successful \<open>umm_poison_malloc\<close> with a total that is
  not zero, the length record holds the total (the user size plus the overhead, modulo
  \<open>2 ^ 32\<close>) truncated to the width of the length record type; it is exactly
  \<open>sizeof_len + before + after + size\<close> when that sum fits both \<open>size_t\<close> and the length
  record type. Verification of a used block whose before-guard is intact is the check of
  the after-guard at body + stored length - after size: no other size enters.
\<close>

theorem length_record_value:
  assumes "tot = size' + poison_size cfg size'"
    and "tot \<noteq> 0"
    and "umm_malloc st tot = (ret, st1)"
    and "ret \<noteq> NULL"
  shows "load_len cfg (mem (snd (umm_poison_malloc cfg umm_malloc st size'))) ret =
           take_bit (8 * unat (sizeof_len cfg)) tot \<and>
         (unat size' + (unat (sizeof_len cfg) + unat (UMM_POISON_SIZE_BEFORE cfg)
            + unat (UMM_POISON_SIZE_AFTER cfg)) < 2 ^ 32 \<and>
          unat size' + (unat (sizeof_len cfg) + unat (UMM_POISON_SIZE_BEFORE cfg)
            + unat (UMM_POISON_SIZE_AFTER cfg)) < 2 ^ (8 * unat (sizeof_len cfg)) \<longrightarrow>
          unat (load_len cfg (mem (snd (umm_poison_malloc cfg umm_malloc st size'))) ret) =
            unat (sizeof_len cfg) + unat (UMM_POISON_SIZE_BEFORE cfg)
              + unat (UMM_POISON_SIZE_AFTER cfg) + unat size') \<and>
         (\<forall>s pblock.
            header_used_next s pblock AND UMM_FREELIST_MASK = 0 \<and>
            list_all (\<lambda>x. mem s x = POISON_BYTE)
              (region (pblock + offsetof_body cfg + sizeof_len cfg)
                 (unat (UMM_POISON_SIZE_BEFORE cfg))) \<longrightarrow>
            check_poison_block cfg s pblock =
              check_poison s
                (pblock + offsetof_body cfg
                   + load_len cfg (mem s) (pblock + offsetof_body cfg)
                   - UMM_POISON_SIZE_AFTER cfg)
                (UMM_POISON_SIZE_AFTER cfg) ''after'')"
proof -
  have run: "umm_poison_malloc cfg umm_malloc st size' = get_poisoned cfg st1 ret tot"
    using assms(1,3) by (simp add: umm_poison_malloc_def Let_def)
  have stored: "load_len cfg (mem (snd (umm_poison_malloc cfg umm_malloc st size'))) ret =
           take_bit (8 * unat (sizeof_len cfg)) tot"
    unfolding run by (rule get_poisoned_len [OF assms(2,4)])
  have nz: "size' \<noteq> 0"
    using assms(1,2) by (auto simp: poison_size_def)
  have exact: "unat (take_bit (8 * unat (sizeof_len cfg)) tot) =
            unat (sizeof_len cfg) + unat (UMM_POISON_SIZE_BEFORE cfg)
              + unat (UMM_POISON_SIZE_AFTER cfg) + unat size'"
    if a: "unat size' + (unat (sizeof_len cfg) + unat (UMM_POISON_SIZE_BEFORE cfg)
            + unat (UMM_POISON_SIZE_AFTER cfg)) < 2 ^ 32"
      and b: "unat size' + (unat (sizeof_len cfg) + unat (UMM_POISON_SIZE_BEFORE cfg)
            + unat (UMM_POISON_SIZE_AFTER cfg)) < 2 ^ (8 * unat (sizeof_len cfg))"
  proof -
    have u: "unat tot = unat size' + (unat (sizeof_len cfg) + unat (UMM_POISON_SIZE_BEFORE cfg)
            + unat (UMM_POISON_SIZE_AFTER cfg))"
      unfolding assms(1) by (rule unat_total [OF nz a])
    with b have "take_bit (8 * unat (sizeof_len cfg)) tot = tot"
      by (intro take_bit_fits) simp
    with u show ?thesis by simp
  qed
  have locate: "check_poison_block cfg s pblock =
              check_poison s
                (pblock + offsetof_body cfg
                   + load_len cfg (mem s) (pblock + offsetof_body cfg)
                   - UMM_POISON_SIZE_AFTER cfg)
                (UMM_POISON_SIZE_AFTER cfg) ''after''"
    if "header_used_next s pblock AND UMM_FREELIST_MASK = 0"
      and "list_all (\<lambda>x. mem s x = POISON_BYTE)
              (region (pblock + offsetof_body cfg + sizeof_len cfg)
                 (unat (UMM_POISON_SIZE_BEFORE cfg)))"
    for s pblock
    using that
    by (simp add: check_poison_block_def check_poison_eq Let_def)
  show ?thesis
    using stored exact locate by simp
qed

theorem length_record_value_witness:
  "unat (load_len cfg0 (mem (snd (umm_poison_malloc cfg0 ex_malloc ex_state 10))) 0x100C) = 20 \<and>
   check_poison_block cfg0 ex_poisoned 0x1008 = check_poison ex_poisoned 0x101C 4 ''after''"
proof -
  note ev = ex_defs model_defs Let_def
  have t: "(20 :: size_t) = 10 + poison_size cfg0 10" by (simp add: ev)
  have tnz: "(20 :: size_t) \<noteq> 0" by simp
  have alloc: "ex_malloc ex_state 20 = (0x100C, ex_state)" by (simp add: ex_malloc_def)
  have ret: "(0x100C :: ptr) \<noteq> NULL" by (simp add: NULL_def)
  have f: "unat (10 :: size_t) + (unat (sizeof_len cfg0) + unat (UMM_POISON_SIZE_BEFORE cfg0)
              + unat (UMM_POISON_SIZE_AFTER cfg0)) < 2 ^ 32 \<and>
           unat (10 :: size_t) + (unat (sizeof_len cfg0) + unat (UMM_POISON_SIZE_BEFORE cfg0)
              + unat (UMM_POISON_SIZE_AFTER cfg0)) < 2 ^ (8 * unat (sizeof_len cfg0))"
    by (simp add: cfg0_simps)
  have u: "header_used_next ex_poisoned 0x1008 AND UMM_FREELIST_MASK = 0 \<and>
           list_all (\<lambda>x. mem ex_poisoned x = POISON_BYTE)
             (region (0x1008 + offsetof_body cfg0 + sizeof_len cfg0)
                (unat (UMM_POISON_SIZE_BEFORE cfg0)))"
    by (simp add: ex_poisoned_def ev)
  have a: "0x1008 + offsetof_body cfg0 + load_len cfg0 (mem ex_poisoned) (0x1008 + offsetof_body cfg0)
             - UMM_POISON_SIZE_AFTER cfg0 = 0x101C"
    by (simp add: ex_poisoned_def ev)
  note inst = length_record_value
    [where umm_malloc = ex_malloc and st = ex_state and cfg = cfg0 and size' = 10,
      OF t tnz alloc ret]
  from inst f
  have p2: "unat (load_len cfg0 (mem (snd (umm_poison_malloc cfg0 ex_malloc ex_state 10))) 0x100C) =
      unat (sizeof_len cfg0) + unat (UMM_POISON_SIZE_BEFORE cfg0)
        + unat (UMM_POISON_SIZE_AFTER cfg0) + unat (10 :: size_t)"
    by blast
  from inst u
  have p3: "check_poison_block cfg0 ex_poisoned 0x1008 =
      check_poison ex_poisoned
        (0x1008 + offsetof_body cfg0 + load_len cfg0 (mem ex_poisoned) (0x1008 + offsetof_body cfg0)
           - UMM_POISON_SIZE_AFTER cfg0)
        (UMM_POISON_SIZE_AFTER cfg0) ''after''"
    by blast
  from p2 p3 [unfolded a] show ?thesis
    by (simp add: cfg0_simps)
qed

text \<open>
  C5 as stated fails when the total exceeds the length record type: with a 2-byte length
  record and the user size 65530 the total is 65540 and the stored value is 4.
\<close>

theorem length_record_truncated:
  "(65530 :: size_t) \<noteq> 0 \<and>
   fst (ex_big_malloc ex_state (65530 + poison_size cfg0 65530)) \<noteq> NULL \<and>
   unat (load_len cfg0 (mem (snd (umm_poison_malloc cfg0 ex_big_malloc ex_state 65530))) 0x100C) = 4 \<and>
   unat (load_len cfg0 (mem (snd (umm_poison_malloc cfg0 ex_big_malloc ex_state 65530))) 0x100C)
     \<noteq> unat (sizeof_len cfg0) + unat (UMM_POISON_SIZE_BEFORE cfg0)
         + unat (UMM_POISON_SIZE_AFTER cfg0) + unat (65530 :: size_t)"
  by (simp add: ex_defs model_defs Let_def)

text \<open>
  C2, as the code has it: let the size be greater than zero, with a total (size plus
  overhead) that neither wraps nor exceeds what the length record type can hold, and let
  the allocator return a non-null block of that total on an initialised heap whose chain
  ends, where the block overlaps no link field of the chain and where every other used
  block of the chain is intact and keeps its poison bytes outside the new block. Then
  \<open>umm_poison_check\<close> right after \<open>umm_poison_malloc\<close> returns 1 and leaves the state as it
  is.
\<close>

theorem umm_poison_malloc_then_check:
  fixes cfg :: umm_cfg and st st1 st2 :: umm_state and h :: ushort and size' tot :: size_t
    and umm_malloc :: malloc_fn
  defines "tot \<equiv> size' + poison_size cfg size'"
    and "st2 \<equiv> snd (umm_poison_malloc cfg umm_malloc st size')"
    and "h \<equiv> UMM_NBLOCK cfg st1 0 AND UMM_BLOCKNO_MASK"
  assumes nz: "size' \<noteq> 0"
    and nowrap: "unat size' + (unat (sizeof_len cfg) + unat (UMM_POISON_SIZE_BEFORE cfg)
                   + unat (UMM_POISON_SIZE_AFTER cfg)) < 2 ^ 32"
    and fits: "unat size' + (unat (sizeof_len cfg) + unat (UMM_POISON_SIZE_BEFORE cfg)
                   + unat (UMM_POISON_SIZE_AFTER cfg)) < 2 ^ (8 * unat (sizeof_len cfg))"
    and alloc: "umm_malloc st tot = (ret, st1)"
    and ret: "ret \<noteq> NULL"
    and init: "umm_heap st1 \<noteq> NULL"
    and ends: "chain_ends n cfg st1 h"
    and links: "\<forall>b\<in>set (0 # chain_nodes n cfg st1 h).
                  set (link_bytes cfg st1 b) \<inter> set (region ret (unat tot)) = {}"
    and others: "\<forall>b\<in>set (chain_prefix n cfg st1 h).
                   block_used cfg st1 b \<and> UMM_BLOCK cfg st1 b + offsetof_body cfg \<noteq> ret \<longrightarrow>
                   block_poison_ok cfg st1 (UMM_BLOCK cfg st1 b) \<and>
                   set (poison_bytes cfg st1 (UMM_BLOCK cfg st1 b)) \<inter> set (region ret (unat tot)) = {}"
  shows "umm_poison_check cfg umm_init st2 = Some (1, st2)"
proof -
  let ?L = "unat (sizeof_len cfg)" and ?B = "unat (UMM_POISON_SIZE_BEFORE cfg)"
    and ?A = "unat (UMM_POISON_SIZE_AFTER cfg)"
  have st2: "st2 = snd (get_poisoned cfg st1 ret tot)"
    using alloc by (simp add: st2_def umm_poison_malloc_def tot_def Let_def)
  have u: "unat tot = unat size' + (?L + ?B + ?A)"
    unfolding tot_def by (rule unat_total [OF nz nowrap])
  then have ov: "?L + ?B + ?A \<le> unat tot" by simp
  have tnz: "tot \<noteq> 0"
    using u nz by (metis add_is_0 unat_eq_zero)
  have heap: "umm_heap st2 = umm_heap st1"
    by (simp add: st2 get_poisoned_heap)
  have same: "\<And>x. x \<notin> set (region ret (unat tot)) \<Longrightarrow> mem st2 x = mem st1 x"
    unfolding st2 by (rule get_poisoned_outside [OF ov])
  have blk: "\<And>b. UMM_BLOCK cfg st2 b = UMM_BLOCK cfg st1 b"
    by (simp add: UMM_BLOCK_def heap)
  have link_same: "UMM_NBLOCK cfg st2 b = UMM_NBLOCK cfg st1 b"
    if "set (link_bytes cfg st1 b) \<inter> set (region ret (unat tot)) = {}" for b
    using that same by (intro UMM_NBLOCK_agree [OF heap]) blast
  have h': "UMM_NBLOCK cfg st2 0 AND UMM_BLOCKNO_MASK = h"
    using links link_same [of 0] by (simp add: h_def)
  have "\<forall>b\<in>set (chain_nodes n cfg st1 h). \<forall>x\<in>set (link_bytes cfg st1 b). mem st2 x = mem st1 x"
  proof (intro ballI)
    fix b x assume "b \<in> set (chain_nodes n cfg st1 h)" "x \<in> set (link_bytes cfg st1 b)"
    with links have "x \<notin> set (region ret (unat tot))" by auto
    then show "mem st2 x = mem st1 x" by (rule same)
  qed
  from chain_agree [OF heap this]
  have pre: "chain_prefix n cfg st2 h = chain_prefix n cfg st1 h"
    and en: "chain_ends n cfg st2 h"
    using ends by simp_all
  have all_ok: "\<forall>b\<in>set (chain_prefix n cfg st2 h).
      block_used cfg st2 b \<longrightarrow> block_poison_ok cfg st2 (UMM_BLOCK cfg st2 b)"
  proof (intro ballI impI)
    fix b assume b: "b \<in> set (chain_prefix n cfg st2 h)" and bu2: "block_used cfg st2 b"
    from b have b_in: "b \<in> set (chain_prefix n cfg st1 h)" by (simp add: pre)
    then have "b \<in> set (chain_nodes n cfg st1 h)"
      using chain_prefix_nodes by blast
    with links have "set (link_bytes cfg st1 b) \<inter> set (region ret (unat tot)) = {}" by simp
    from link_same [OF this] bu2 have bu: "block_used cfg st1 b"
      by (simp add: block_used_def)
    let ?pb = "UMM_BLOCK cfg st1 b"
    show "block_poison_ok cfg st2 (UMM_BLOCK cfg st2 b)"
    proof (cases "?pb + offsetof_body cfg = ret")
      case True
      have len: "load_len cfg (mem st2) ret = tot"
        unfolding st2 get_poisoned_len [OF tnz ret]
        using fits u by (intro take_bit_fits) simp
      have "list_all (\<lambda>x. mem st2 x = POISON_BYTE) (region (ret + sizeof_len cfg) ?B)"
        and "list_all (\<lambda>x. mem st2 x = POISON_BYTE)
               (region (ret + tot - UMM_POISON_SIZE_AFTER cfg) ?A)"
        unfolding st2 using get_poisoned_guards [OF ov ret] by simp_all
      then show ?thesis
        using True len
        by (simp add: blk block_poison_ok_def before_bytes_def after_bytes_def
            before_guard_def after_guard_def)
    next
      case False
      with others b_in bu have ok1: "block_poison_ok cfg st1 ?pb"
        and dj: "set (poison_bytes cfg st1 ?pb) \<inter> set (region ret (unat tot)) = {}"
        by simp_all
      have "\<forall>x\<in>set (poison_bytes cfg st1 ?pb). mem st2 x = mem st1 x"
        using dj same by blast
      from poison_agree(2) [OF this] ok1 show ?thesis
        by (simp add: blk)
    qed
  qed
  have "verify_blocks cfg st2 (chain_prefix n cfg st2 h) = (1, st2)"
    by (rule verify_blocks_all_ok [OF all_ok])
  moreover have "umm_poison_check_loop cfg st2 h 1 =
      Some (verify_blocks cfg st2 (chain_prefix n cfg st2 h))"
    using en by (intro loop_verify) simp
  moreover have "umm_poison_check cfg umm_init st2 = umm_poison_check_loop cfg st2 h 1"
    using init by (simp add: umm_poison_check_def heap h' Let_def)
  ultimately show ?thesis by simp
qed

theorem umm_poison_malloc_then_check_witness:
  "ex_malloc ex_state (10 + poison_size cfg0 10) = (0x100C, ex_state) \<and>
   umm_poison_check cfg0 ex_init (snd (umm_poison_malloc cfg0 ex_malloc ex_state 10)) =
     Some (1, snd (umm_poison_malloc cfg0 ex_malloc ex_state 10))"
proof -
  let ?h = "UMM_NBLOCK cfg0 ex_state 0 AND UMM_BLOCKNO_MASK"
  note ev = ex_defs model_defs chain_numerals layout_defs Let_def
  have h: "?h = 1" by (simp add: ev)
  have pre: "chain_prefix 3 cfg0 ex_state 1 = [1, 4]" by (simp add: ev)
  have nodes: "chain_nodes 3 cfg0 ex_state 1 = [1, 4, 5]" by (simp add: ev)
  have nz: "(10 :: size_t) \<noteq> 0" by simp
  have nowrap: "unat (10 :: size_t) + (unat (sizeof_len cfg0) + unat (UMM_POISON_SIZE_BEFORE cfg0)
                   + unat (UMM_POISON_SIZE_AFTER cfg0)) < 2 ^ 32"
    by (simp add: cfg0_def)
  have fits: "unat (10 :: size_t) + (unat (sizeof_len cfg0) + unat (UMM_POISON_SIZE_BEFORE cfg0)
                   + unat (UMM_POISON_SIZE_AFTER cfg0)) < 2 ^ (8 * unat (sizeof_len cfg0))"
    by (simp add: cfg0_def)
  have alloc: "ex_malloc ex_state (10 + poison_size cfg0 10) = (0x100C, ex_state)"
    by (simp add: ex_malloc_def)
  have ret: "(0x100C :: ptr) \<noteq> NULL" by (simp add: NULL_def)
  have init: "umm_heap ex_state \<noteq> NULL" by (simp add: ev)
  have ends: "chain_ends 3 cfg0 ex_state ?h" by (simp add: ev)
  have links: "\<forall>b\<in>set (0 # chain_nodes 3 cfg0 ex_state ?h).
      set (link_bytes cfg0 ex_state b) \<inter> set (region 0x100C (unat (10 + poison_size cfg0 10))) = {}"
    unfolding h nodes by (simp add: ev)
  have others: "\<forall>b\<in>set (chain_prefix 3 cfg0 ex_state ?h).
      block_used cfg0 ex_state b \<and> UMM_BLOCK cfg0 ex_state b + offsetof_body cfg0 \<noteq> 0x100C \<longrightarrow>
      block_poison_ok cfg0 ex_state (UMM_BLOCK cfg0 ex_state b) \<and>
      set (poison_bytes cfg0 ex_state (UMM_BLOCK cfg0 ex_state b)) \<inter>
        set (region 0x100C (unat (10 + poison_size cfg0 10))) = {}"
    unfolding h pre by (simp add: ev)
  from umm_poison_malloc_then_check
    [where umm_malloc = ex_malloc and st = ex_state and cfg = cfg0 and size' = 10
       and umm_init = ex_init,
      OF nz nowrap fits alloc ret init ends links others] alloc
  show ?thesis by simp
qed

text \<open>
  C2 as stated fails when the total wraps: for the size \<open>2 ^ 32 - 5\<close> the total is 5, the
  allocator returns a block for it, the length record is then written over the first byte
  of the after-guard, and the check that follows returns 0.
\<close>

theorem umm_poison_malloc_wrapped_check_fails:
  "(0xFFFFFFFB :: size_t) \<noteq> 0 \<and>
   fst (ex_malloc ex_state (0xFFFFFFFB + poison_size cfg0 0xFFFFFFFB)) \<noteq> NULL \<and>
   map_option fst
     (umm_poison_check cfg0 ex_init (snd (umm_poison_malloc cfg0 ex_malloc ex_state 0xFFFFFFFB))) =
     Some 0"
  apply (simp add: ex_defs model_defs Let_def)
  apply (subst umm_poison_check_loop.simps)
  apply (simp add: ex_defs model_defs Let_def)
  done

section \<open>The wrapped total of \<open>umm_poison_malloc\<close>\<close>

text \<open>
  C10, as the code has it: \<open>umm_poison_malloc\<close> computes the total as
  \<open>size + poison_size size\<close> in \<open>size_t\<close> arithmetic with no overflow check. When the sum of
  the two exceeds \<open>2 ^ 32 - 1\<close>, the total is the sum minus \<open>2 ^ 32\<close>, which is smaller than
  the requested size, and it is the size the allocator is asked for. When that total is 0
  or the allocator returns null, the allocator's pointer and state come back as they are
  and nothing is poisoned. Otherwise the block is poisoned with the wrapped total: the
  pointer returned is the block's start plus the length record and the before-guard, the
  length record holds the wrapped total (truncated to the width of its type), every byte
  of the before-guard and of the after-guard placed at start + total - after size holds
  the poison byte unless the length record covers it, and no other byte of memory
  changes.
\<close>

theorem umm_poison_malloc_total_wraps:
  assumes wrap: "2 ^ 32 \<le> unat size' + unat (poison_size cfg size')"
    and tot: "tot = size' + poison_size cfg size'"
    and alloc: "umm_malloc st tot = (ret, st1)"
  shows "unat tot = unat size' + unat (poison_size cfg size') - 2 ^ 32 \<and>
         unat tot < unat size' \<and>
         (tot = 0 \<or> ret = NULL \<longrightarrow>
            umm_poison_malloc cfg umm_malloc st size' = (ret, st1)) \<and>
         (tot \<noteq> 0 \<and> ret \<noteq> NULL \<longrightarrow>
            fst (umm_poison_malloc cfg umm_malloc st size') =
              ret + sizeof_len cfg + UMM_POISON_SIZE_BEFORE cfg \<and>
            umm_heap (snd (umm_poison_malloc cfg umm_malloc st size')) = umm_heap st1 \<and>
            dbglog (snd (umm_poison_malloc cfg umm_malloc st size')) = dbglog st1 \<and>
            load_len cfg (mem (snd (umm_poison_malloc cfg umm_malloc st size'))) ret =
              take_bit (8 * unat (sizeof_len cfg)) tot \<and>
            (\<forall>x\<in>set (region (ret + sizeof_len cfg) (unat (UMM_POISON_SIZE_BEFORE cfg))) \<union>
                  set (region (ret + tot - UMM_POISON_SIZE_AFTER cfg)
                         (unat (UMM_POISON_SIZE_AFTER cfg))).
               x \<notin> set (region ret (unat (sizeof_len cfg))) \<longrightarrow>
               mem (snd (umm_poison_malloc cfg umm_malloc st size')) x = POISON_BYTE) \<and>
            (\<forall>x. x \<notin> set (region ret (unat (sizeof_len cfg))) \<and>
                 x \<notin> set (region (ret + sizeof_len cfg) (unat (UMM_POISON_SIZE_BEFORE cfg))) \<and>
                 x \<notin> set (region (ret + tot - UMM_POISON_SIZE_AFTER cfg)
                              (unat (UMM_POISON_SIZE_AFTER cfg))) \<longrightarrow>
                 mem (snd (umm_poison_malloc cfg umm_malloc st size')) x = mem st1 x))"
proof -
  have b2: "unat (poison_size cfg size') < 2 ^ 32"
    by (rule unat_lt32)
  have "unat tot = (unat size' + unat (poison_size cfg size')) mod 2 ^ 32"
    by (simp add: tot unat_word_ariths)
  also have "\<dots> = unat size' + unat (poison_size cfg size') - 2 ^ 32"
    using wrap unat_lt32 [of size'] b2 by (simp add: mod_if)
  finally have u: "unat tot = unat size' + unat (poison_size cfg size') - 2 ^ 32" .
  have lt: "unat tot < unat size'"
    using u b2 wrap by linarith
  have run: "umm_poison_malloc cfg umm_malloc st size' = get_poisoned cfg st1 ret tot"
    using alloc by (simp add: umm_poison_malloc_def tot Let_def)
  have none: "umm_poison_malloc cfg umm_malloc st size' = (ret, st1)" if "tot = 0 \<or> ret = NULL"
    unfolding run using that by (auto simp: get_poisoned_def)
  have poisoned:
       "fst (get_poisoned cfg st1 ret tot) = ret + sizeof_len cfg + UMM_POISON_SIZE_BEFORE cfg"
       "umm_heap (snd (get_poisoned cfg st1 ret tot)) = umm_heap st1"
       "dbglog (snd (get_poisoned cfg st1 ret tot)) = dbglog st1"
       "load_len cfg (mem (snd (get_poisoned cfg st1 ret tot))) ret =
          take_bit (8 * unat (sizeof_len cfg)) tot"
       "\<forall>x\<in>set (region (ret + sizeof_len cfg) (unat (UMM_POISON_SIZE_BEFORE cfg))) \<union>
             set (region (ret + tot - UMM_POISON_SIZE_AFTER cfg)
                    (unat (UMM_POISON_SIZE_AFTER cfg))).
          x \<notin> set (region ret (unat (sizeof_len cfg))) \<longrightarrow>
          mem (snd (get_poisoned cfg st1 ret tot)) x = POISON_BYTE"
       "\<forall>x. x \<notin> set (region ret (unat (sizeof_len cfg))) \<and>
            x \<notin> set (region (ret + sizeof_len cfg) (unat (UMM_POISON_SIZE_BEFORE cfg))) \<and>
            x \<notin> set (region (ret + tot - UMM_POISON_SIZE_AFTER cfg)
                         (unat (UMM_POISON_SIZE_AFTER cfg))) \<longrightarrow>
            mem (snd (get_poisoned cfg st1 ret tot)) x = mem st1 x"
    if nz: "tot \<noteq> 0" and nn: "ret \<noteq> NULL"
  proof -
    show "fst (get_poisoned cfg st1 ret tot) = ret + sizeof_len cfg + UMM_POISON_SIZE_BEFORE cfg"
      by (rule get_poisoned_state(2) [OF nz nn])
    show "umm_heap (snd (get_poisoned cfg st1 ret tot)) = umm_heap st1"
      and "dbglog (snd (get_poisoned cfg st1 ret tot)) = dbglog st1"
      by (simp_all add: get_poisoned_heap)
    show "load_len cfg (mem (snd (get_poisoned cfg st1 ret tot))) ret =
          take_bit (8 * unat (sizeof_len cfg)) tot"
      by (rule get_poisoned_len [OF nz nn])
    show "\<forall>x\<in>set (region (ret + sizeof_len cfg) (unat (UMM_POISON_SIZE_BEFORE cfg))) \<union>
             set (region (ret + tot - UMM_POISON_SIZE_AFTER cfg)
                    (unat (UMM_POISON_SIZE_AFTER cfg))).
          x \<notin> set (region ret (unat (sizeof_len cfg))) \<longrightarrow>
          mem (snd (get_poisoned cfg st1 ret tot)) x = POISON_BYTE"
      by (auto simp: get_poisoned_state(1) [OF nz nn] store_le_outside memset_apply)
    show "\<forall>x. x \<notin> set (region ret (unat (sizeof_len cfg))) \<and>
            x \<notin> set (region (ret + sizeof_len cfg) (unat (UMM_POISON_SIZE_BEFORE cfg))) \<and>
            x \<notin> set (region (ret + tot - UMM_POISON_SIZE_AFTER cfg)
                         (unat (UMM_POISON_SIZE_AFTER cfg))) \<longrightarrow>
            mem (snd (get_poisoned cfg st1 ret tot)) x = mem st1 x"
      by (simp add: get_poisoned_state(1) [OF nz nn] store_le_outside memset_apply)
  qed
  show ?thesis
    unfolding run using u lt none [unfolded run] poisoned by blast
qed

theorem umm_poison_malloc_total_wraps_witness:
  "(2::nat) ^ 32 \<le> unat (0xFFFFFFFB :: size_t) + unat (poison_size cfg0 0xFFFFFFFB) \<and>
   unat (0xFFFFFFFB + poison_size cfg0 0xFFFFFFFB) = 5 \<and>
   fst (umm_poison_malloc cfg0 ex_malloc ex_state 0xFFFFFFFB) = 0x1012 \<and>
   load_len cfg0 (mem (snd (umm_poison_malloc cfg0 ex_malloc ex_state 0xFFFFFFFB))) 0x100C = 5 \<and>
   mem (snd (umm_poison_malloc cfg0 ex_malloc ex_state 0xFFFFFFFB)) 0x100E = POISON_BYTE \<and>
   mem (snd (umm_poison_malloc cfg0 ex_malloc ex_state 0xFFFFFFFB)) 0x1011 = POISON_BYTE \<and>
   mem (snd (umm_poison_malloc cfg0 ex_malloc ex_state 0xFFFFFFFB)) 0x1012 = mem ex_state 0x1012 \<and>
   (2::nat) ^ 32 \<le> unat (0xFFFFFFF6 :: size_t) + unat (poison_size cfg0 0xFFFFFFF6) \<and>
   umm_poison_malloc cfg0 ex_malloc ex_state 0xFFFFFFF6 = (0x100C, ex_state)"
proof -
  have h: "(2::nat) ^ 32 \<le> unat (0xFFFFFFFB :: size_t) + unat (poison_size cfg0 0xFFFFFFFB)"
    by (simp add: poison_size_def cfg0_simps)
  have t: "(5 :: size_t) = 0xFFFFFFFB + poison_size cfg0 0xFFFFFFFB"
    by (simp add: poison_size_def cfg0_simps)
  have alloc: "ex_malloc ex_state 5 = (0x100C, ex_state)"
    by (simp add: ex_malloc_def)
  have c: "(5 :: size_t) \<noteq> 0 \<and> (0x100C :: ptr) \<noteq> NULL"
    by (simp add: NULL_def)
  note inst = umm_poison_malloc_total_wraps
    [where umm_malloc = ex_malloc and st = ex_state and cfg = cfg0 and size' = "0xFFFFFFFB",
      OF h t alloc]
  have r: "(0x100C :: ptr) + sizeof_len cfg0 = 0x100E"
      "(0x100C :: ptr) + 5 - UMM_POISON_SIZE_AFTER cfg0 = 0x100D"
      "(0x100E :: ptr) + UMM_POISON_SIZE_BEFORE cfg0 = 0x1012"
      "unat (UMM_POISON_SIZE_BEFORE cfg0) = 4" "unat (UMM_POISON_SIZE_AFTER cfg0) = 4"
      "unat (sizeof_len cfg0) = 2"
    by (simp_all add: cfg0_simps)
  have m1: "(0x100E :: ptr) \<in> set (region 0x100E 4) \<union> set (region 0x100D 4) \<and>
            (0x100E :: ptr) \<notin> set (region 0x100C 2)"
    and m2: "(0x1011 :: ptr) \<in> set (region 0x100E 4) \<union> set (region 0x100D 4) \<and>
            (0x1011 :: ptr) \<notin> set (region 0x100C 2)"
    and m3: "(0x1012 :: ptr) \<notin> set (region 0x100C 2) \<and> (0x1012 :: ptr) \<notin> set (region 0x100E 4) \<and>
            (0x1012 :: ptr) \<notin> set (region 0x100D 4)"
    by (simp_all add: region_0 region_Suc region_numeral)
  from inst c have p1: "fst (umm_poison_malloc cfg0 ex_malloc ex_state 0xFFFFFFFB) = 0x1012"
    unfolding r by blast
  from inst c have p2:
    "load_len cfg0 (mem (snd (umm_poison_malloc cfg0 ex_malloc ex_state 0xFFFFFFFB))) 0x100C =
       take_bit (8 * 2) (5 :: size_t)"
    unfolding r by blast
  from inst c m1 have p3:
    "mem (snd (umm_poison_malloc cfg0 ex_malloc ex_state 0xFFFFFFFB)) 0x100E = POISON_BYTE"
    unfolding r by blast
  from inst c m2 have p4:
    "mem (snd (umm_poison_malloc cfg0 ex_malloc ex_state 0xFFFFFFFB)) 0x1011 = POISON_BYTE"
    unfolding r by blast
  from inst c m3 have p5:
    "mem (snd (umm_poison_malloc cfg0 ex_malloc ex_state 0xFFFFFFFB)) 0x1012 = mem ex_state 0x1012"
    unfolding r by blast
  have tb: "take_bit (8 * 2) (5 :: size_t) = 5"
    by (intro take_bit_fits) simp
  have h0: "(2::nat) ^ 32 \<le> unat (0xFFFFFFF6 :: size_t) + unat (poison_size cfg0 0xFFFFFFF6)"
    by (simp add: poison_size_def cfg0_simps)
  have t0: "(0 :: size_t) = 0xFFFFFFF6 + poison_size cfg0 0xFFFFFFF6"
    by (simp add: poison_size_def cfg0_simps)
  have alloc0: "ex_malloc ex_state 0 = (0x100C, ex_state)"
    by (simp add: ex_malloc_def)
  from umm_poison_malloc_total_wraps
    [where umm_malloc = ex_malloc and st = ex_state and cfg = cfg0 and size' = "0xFFFFFFF6",
      OF h0 t0 alloc0]
  have p0: "umm_poison_malloc cfg0 ex_malloc ex_state 0xFFFFFFF6 = (0x100C, ex_state)"
    by blast
  have u5: "unat ((0xFFFFFFFB :: size_t) + poison_size cfg0 0xFFFFFFFB) = 5"
    by (simp add: t [symmetric])
  from h u5 p1 p2 p3 p4 p5 h0 p0 show ?thesis
    unfolding tb by blast
qed

text \<open>
  C10 as stated fails at the size \<open>2 ^ 32 - 10\<close>, which is above \<open>SIZE_MAX\<close> minus the
  overhead of 10: the total wraps to 0, the allocator returns a block for it, and
  \<open>umm_poison_malloc\<close> hands back the allocator's pointer and state as they are: no length
  record and no guard byte is written, so the block is not poisoned.
\<close>

theorem umm_poison_malloc_wrapped_to_zero_not_poisoned:
  "(2::nat) ^ 32 \<le> unat (0xFFFFFFF6 :: size_t) + unat (poison_size cfg0 0xFFFFFFF6) \<and>
   0xFFFFFFF6 + poison_size cfg0 0xFFFFFFF6 = 0 \<and>
   fst (ex_malloc ex_state (0xFFFFFFF6 + poison_size cfg0 0xFFFFFFF6)) \<noteq> NULL \<and>
   umm_poison_malloc cfg0 ex_malloc ex_state 0xFFFFFFF6 = (0x100C, ex_state) \<and>
   mem (snd (umm_poison_malloc cfg0 ex_malloc ex_state 0xFFFFFFF6)) 0x100E \<noteq> POISON_BYTE"
  by (simp add: ex_defs model_defs Let_def)

end
